theory Spec2Isabelle
  imports Main
begin

section \<open>The rule \<open>forbid-log-strings\<close>: data model\<close>

text \<open>
  The development embeds \<^verbatim>\<open>lib/rules/forbid-log-strings.js\<close>. A JavaScript string is a
  \<open>string\<close>; a character stands for a code unit below 256. An optional property of a
  configuration object (\<^verbatim>\<open>undefined\<close> when absent) is an \<open>option\<close>.

  The schema of the rule (\<^verbatim>\<open>meta.schema\<close>) admits for \<^verbatim>\<open>logic\<close> exactly the three strings
  \<^verbatim>\<open>"OR"\<close>, \<^verbatim>\<open>"AND"\<close> and \<^verbatim>\<open>"XOR"\<close>, requires \<^verbatim>\<open>forbiddenPatterns\<close> (an array, possibly
  empty) and leaves the other two properties optional. A pattern is a string, as the
  README asks for regular expressions too.
\<close>

datatype logic_op = OR | AND | XOR

record configuration =
  forbiddenPatterns :: "string list"
  logic :: "logic_op option"
  excludeLevels :: "string list option"
  customLoggers :: "string list option"

text \<open>
  The part of the syntax tree that the rule reads: the \<^verbatim>\<open>type\<close> of a node, the \<^verbatim>\<open>name\<close> of
  an identifier, the \<^verbatim>\<open>value\<close> of a literal, and \<^verbatim>\<open>object\<close> and \<^verbatim>\<open>property\<close> of a member
  expression. \<open>OtherNode\<close> carries the type of any other node (template literals, binary
  expressions, calls, ...), which has none of these properties. Of the value of a literal
  the rule reads whether it is a string, and the string: a number stands for any numeric
  literal, and \<open>OtherValue\<close> for the values of regular expression and bigint literals.
\<close>

datatype literal_value = Str string | Num int | Bool bool | Null | OtherValue

datatype node =
  Literal literal_value
| Identifier string
| MemberExpression node node
| OtherNode string

record call_expression =
  callee :: node
  arguments :: "node list"

text \<open>
  What \<^verbatim>\<open>context.report\<close> receives: the message identifier with its location
  (\<^verbatim>\<open>line\<close>, \<^verbatim>\<open>column\<close>) for the two configuration errors, and the node with the \<^verbatim>\<open>data\<close>
  object for a forbidden statement. The key of a \<^verbatim>\<open>for ... in\<close> loop over an array is the
  index written as a string; \<open>configurationIndex\<close> holds the index itself.
\<close>

record forbiddenConsole_data =
  loggerName :: string
  logMethod :: "string option"
  configurationIndex :: nat
  explanation :: string

datatype report =
  forbiddenConsole call_expression forbiddenConsole_data
| missingLogic nat nat
| unnecessaryLogic nat nat

text \<open>
  Exceptions are values. \<open>SyntaxError\<close> is what \<^verbatim>\<open>new RegExp\<close> throws on a source or on
  flags that it rejects, \<open>TypeError\<close> what reading a property of \<^verbatim>\<open>undefined\<close> throws.
  \<open>NotModelled\<close> is no exception of the program: the interpreter of regular expressions
  further down answers it for a source outside the fragment that it covers.
\<close>

datatype error = SyntaxError | TypeError | NotModelled

text \<open>
  The rule uses a regular expression object only through \<^verbatim>\<open>test\<close>, once, right after its
  construction (\<^verbatim>\<open>lastIndex\<close> is 0): a compiled expression is the predicate that this call
  computes. The constructor \<^verbatim>\<open>new RegExp(source, flags)\<close> is a parameter of the functions
  that compile patterns.
\<close>

type_synonym RegExp = "string \<Rightarrow> bool"

type_synonym RegExp_ctor = "string \<Rightarrow> string \<Rightarrow> error + RegExp"

section \<open>Array and string methods\<close>

text \<open>
  \<^verbatim>\<open>Array.prototype.join\<close> on an array of strings: the result starts with the first
  element, and every further element is appended after the separator.
\<close>

definition join :: "string \<Rightarrow> string list \<Rightarrow> string" where
  "join sep xs = (case xs of [] \<Rightarrow> [] | x # rest \<Rightarrow> foldl (\<lambda>R next. R @ sep @ next) x rest)"

text \<open>
  \<^verbatim>\<open>Array.prototype.includes\<close> on an array of strings; the argument is \<^verbatim>\<open>undefined\<close> when
  the node has no \<^verbatim>\<open>name\<close>, and then nothing equals it.
\<close>

definition array_includes :: "string list \<Rightarrow> string option \<Rightarrow> bool" where
  "array_includes xs x = (case x of None \<Rightarrow> False | Some s \<Rightarrow> List.member xs s)"

text \<open>\<^verbatim>\<open>map\<close> with a callback that may throw: the first exception ends the traversal.\<close>

fun map_throwing :: "('a \<Rightarrow> error + 'b) \<Rightarrow> 'a list \<Rightarrow> error + 'b list" where
  "map_throwing f [] = Inr []"
| "map_throwing f (x # xs) =
     (case f x of
        Inl e \<Rightarrow> Inl e
      | Inr y \<Rightarrow> (case map_throwing f xs of Inl e \<Rightarrow> Inl e | Inr ys \<Rightarrow> Inr (y # ys)))"

section \<open>Pattern compiler\<close>

definition LineTerminator :: "char \<Rightarrow> bool" where
  "LineTerminator c = (c = CHR 0x0A \<or> c = CHR 0x0D)"

definition flag_character :: "char \<Rightarrow> bool" where
  "flag_character c = List.member ''gimuydsv'' c"

text \<open>
  \<^verbatim>\<open>pattern.match(/^\/(.*)\/([gimuydsv]*)$/)\<close>: \<open>None\<close> is \<^verbatim>\<open>null\<close>, and \<open>Some (body, flags)\<close>
  holds the two groups \<^verbatim>\<open>match[1]\<close> and \<^verbatim>\<open>match[2]\<close>. After the first slash the greedy
  \<^verbatim>\<open>.*\<close> takes characters other than line terminators and gives them back one by one:
  the candidates for its length \<open>k\<close> are tried from the longest, and the first one that is
  followed by a slash and by flag characters up to the end of the string is the match.
\<close>

definition body_length :: "string \<Rightarrow> nat \<Rightarrow> bool" where
  "body_length rest k =
     (list_all (\<lambda>c. \<not> LineTerminator c) (take k rest) \<and>
      take 1 (drop k rest) = ''/'' \<and>
      list_all flag_character (drop (Suc k) rest))"

definition getMatch :: "string \<Rightarrow> (string \<times> string) option" where
  "getMatch pattern =
     (case pattern of
        [] \<Rightarrow> None
      | c # rest \<Rightarrow>
          if c \<noteq> CHR ''/'' then None
          else (case filter (body_length rest) (rev [0..<length rest]) of
                  [] \<Rightarrow> None
                | k # _ \<Rightarrow> Some (take k rest, drop (Suc k) rest)))"

definition isRegex :: "string \<Rightarrow> bool" where
  "isRegex pattern = (getMatch pattern \<noteq> None)"

text \<open>
  A pattern of the regular expression shape is compiled from its body and flags; any other
  pattern is put between two \<^verbatim>\<open>\b\<close> as it is and compiled with the flag \<^verbatim>\<open>i\<close>.
\<close>

definition parsePattern :: "RegExp_ctor \<Rightarrow> string \<Rightarrow> error + RegExp" where
  "parsePattern RegExp_new pattern =
     (case getMatch pattern of
        Some (body, flags) \<Rightarrow> RegExp_new body flags
      | None \<Rightarrow> RegExp_new ([CHR 0x5C, CHR ''b''] @ pattern @ [CHR 0x5C, CHR ''b'']) ''i'')"

section \<open>Configuration validator\<close>

definition validateConfig :: "configuration \<Rightarrow> nat \<Rightarrow> report list" where
  "validateConfig config index =
     (if length (forbiddenPatterns config) > 1 \<and> logic config = None
      then [missingLogic 1 (index + 1)]
      else if length (forbiddenPatterns config) = 1 \<and> logic config \<noteq> None
      then [unnecessaryLogic 1 (index + 1)]
      else [])"

text \<open>
  The \<^verbatim>\<open>Program\<close> handler: \<^verbatim>\<open>forEach\<close> calls the validator on every configuration with its
  index; the reports accumulate in the order of the calls.
\<close>

definition Program :: "configuration list \<Rightarrow> report list" where
  "Program configurations =
     foldl (\<lambda>reports (index, config). reports @ validateConfig config index) []
       (enumerate 0 configurations)"

section \<open>Logic combinator\<close>

text \<open>
  The four \<^verbatim>\<open>return\<close> statements of \<^verbatim>\<open>matchesPattern\<close>, on the array \<^verbatim>\<open>matches\<close>:
  \<^verbatim>\<open>some(Boolean)\<close>, \<^verbatim>\<open>every(Boolean)\<close>, \<^verbatim>\<open>filter(Boolean).length === 1\<close>, and \<^verbatim>\<open>false\<close>.
\<close>

definition combine :: "logic_op option \<Rightarrow> bool list \<Rightarrow> bool" where
  "combine lg matches =
     (if lg = Some OR then list_ex (\<lambda>b. b) matches
      else if lg = Some AND then list_all (\<lambda>b. b) matches
      else if lg = Some XOR then length (filter (\<lambda>b. b) matches) = 1
      else False)"

text \<open>
  All patterns are compiled before any of them is tested, so an exception of the
  constructor leaves \<^verbatim>\<open>matchesPattern\<close> before the logic is looked at.
\<close>

definition matchesPattern :: "RegExp_ctor \<Rightarrow> string \<Rightarrow> configuration \<Rightarrow> error + bool" where
  "matchesPattern RegExp_new string config =
     (case map_throwing (parsePattern RegExp_new) (forbiddenPatterns config) of
        Inl e \<Rightarrow> Inl e
      | Inr regexPatterns \<Rightarrow>
          Inr (combine (logic config) (map (\<lambda>regex. regex string) regexPatterns)))"

section \<open>Call-site classifier\<close>

text \<open>
  \<^verbatim>\<open>node.name\<close>: only an identifier has a name; on every other node of the model the
  property is \<^verbatim>\<open>undefined\<close>.
\<close>

fun node_name :: "node \<Rightarrow> string option" where
  "node_name (Identifier n) = Some n"
| "node_name _ = None"

fun isMemberExpression :: "node \<Rightarrow> bool" where
  "isMemberExpression (MemberExpression obj prop) = True"
| "isMemberExpression _ = False"

text \<open>\<^verbatim>\<open>callee.object.name\<close> and \<^verbatim>\<open>callee.property.name\<close>, read on a member expression only.\<close>

fun callee_object_name :: "node \<Rightarrow> string option" where
  "callee_object_name (MemberExpression obj prop) = node_name obj"
| "callee_object_name _ = None"

fun callee_property_name :: "node \<Rightarrow> string option" where
  "callee_property_name (MemberExpression obj prop) = node_name prop"
| "callee_property_name _ = None"

text \<open>
  The arguments that are literals with a string value, mapped to that value
  (\<^verbatim>\<open>filter\<close> then \<^verbatim>\<open>map\<close>), and their \<^verbatim>\<open>join(" ")\<close>.
\<close>

fun string_literal_value :: "node \<Rightarrow> string option" where
  "string_literal_value (Literal (Str s)) = Some s"
| "string_literal_value _ = None"

definition messageArgsMap :: "node list \<Rightarrow> string list" where
  "messageArgsMap args = List.map_filter string_literal_value args"

definition messageArguments :: "node list \<Rightarrow> string" where
  "messageArguments args = join '' '' (messageArgsMap args)"

text \<open>
  The constants that the handler computes before its loop: whether the callee is a member
  of \<^verbatim>\<open>console\<close>, the custom logger names of all configurations (\<^verbatim>\<open>flatMap\<close>), whether the
  callee is a member of one of them, the method name and the text to match.
\<close>

record call_site =
  callNode :: call_expression
  isConsoleStatement :: bool
  customLoggerNames :: "string list"
  isCustomLoggerStatement :: bool
  loggerObjectName :: "string option"
  logLevel :: "string option"
  literalText :: string

definition classify :: "configuration list \<Rightarrow> call_expression \<Rightarrow> call_site" where
  "classify configurations nd =
     (let names = concat (map (\<lambda>config. case customLoggers config of None \<Rightarrow> [] | Some l \<Rightarrow> l)
                    configurations)
      in \<lparr> callNode = nd,
           isConsoleStatement =
             (isMemberExpression (callee nd) \<and> callee_object_name (callee nd) = Some ''console''),
           customLoggerNames = names,
           isCustomLoggerStatement =
             (isMemberExpression (callee nd) \<and> array_includes names (callee_object_name (callee nd))),
           loggerObjectName = callee_object_name (callee nd),
           logLevel = callee_property_name (callee nd),
           literalText = messageArguments (arguments nd) \<rparr>)"

section \<open>Configuration resolver\<close>

definition levelExcluded :: "call_site \<Rightarrow> configuration \<Rightarrow> bool" where
  "levelExcluded site config =
     (case excludeLevels config of
        None \<Rightarrow> False
      | Some levels \<Rightarrow> array_includes levels (logLevel site))"

definition appliesToConsole :: "call_site \<Rightarrow> configuration \<Rightarrow> bool" where
  "appliesToConsole site config = (isConsoleStatement site \<and> customLoggers config = None)"

definition appliesToCustomLogger :: "call_site \<Rightarrow> configuration \<Rightarrow> bool" where
  "appliesToCustomLogger site config =
     (isCustomLoggerStatement site \<and> customLoggers config \<noteq> None \<and>
      array_includes (customLoggerNames site) (loggerObjectName site))"

section \<open>Diagnostic formatter\<close>

definition logic_text :: "logic_op option \<Rightarrow> string" where
  "logic_text lg =
     (case lg of
        None \<Rightarrow> ''undefined''
      | Some OR \<Rightarrow> ''OR''
      | Some AND \<Rightarrow> ''AND''
      | Some XOR \<Rightarrow> ''XOR'')"

definition explanation_of :: "configuration \<Rightarrow> string" where
  "explanation_of config =
     join ('' '' @ logic_text (logic config) @ '' '')
       (map (\<lambda>p. if \<not> isRegex p then [CHR 0x27] @ p @ [CHR 0x27] else p)
          (forbiddenPatterns config))"

definition loggerName_of :: "call_site \<Rightarrow> configuration \<Rightarrow> error + string" where
  "loggerName_of site config =
     (if appliesToConsole site config then Inr ''console''
      else (case customLoggers config of
              None \<Rightarrow> Inl TypeError
            | Some l \<Rightarrow>
                Inr ((if length l > 1 then ''('' else []) @ join ''|'' l @
                     (if length l > 1 then '')'' else []))))"

definition forbiddenConsole_report :: "call_site \<Rightarrow> nat \<Rightarrow> configuration \<Rightarrow> error + report" where
  "forbiddenConsole_report site index config =
     (case loggerName_of site config of
        Inl e \<Rightarrow> Inl e
      | Inr nm \<Rightarrow>
          Inr (forbiddenConsole (callNode site)
                 \<lparr> loggerName = nm,
                   logMethod = logLevel site,
                   configurationIndex = index,
                   explanation = explanation_of config \<rparr>))"

section \<open>The handler of call expressions\<close>

text \<open>
  The loop \<^verbatim>\<open>for (const index in configurations)\<close>, from \<open>index\<close> on: \<^verbatim>\<open>continue\<close> for an
  excluded level, the pattern test only for a configuration that applies, and \<^verbatim>\<open>return\<close>
  after the first report. The result holds the reports of this visit.
\<close>

fun resolve :: "RegExp_ctor \<Rightarrow> call_site \<Rightarrow> nat \<Rightarrow> configuration list \<Rightarrow> error + report list" where
  "resolve RegExp_new site index [] = Inr []"
| "resolve RegExp_new site index (config # rest) =
     (if levelExcluded site config then resolve RegExp_new site (Suc index) rest
      else if appliesToConsole site config \<or> appliesToCustomLogger site config then
        (case matchesPattern RegExp_new (literalText site) config of
           Inl e \<Rightarrow> Inl e
         | Inr matched \<Rightarrow>
             if matched then
               (case forbiddenConsole_report site index config of
                  Inl e \<Rightarrow> Inl e
                | Inr r \<Rightarrow> Inr [r])
             else resolve RegExp_new site (Suc index) rest)
      else resolve RegExp_new site (Suc index) rest)"

definition CallExpression :: "RegExp_ctor \<Rightarrow> configuration list \<Rightarrow> call_expression \<Rightarrow> error + report list" where
  "CallExpression RegExp_new configurations nd =
     (let site = classify configurations nd
      in if \<not> isConsoleStatement site \<and> \<not> isCustomLoggerStatement site then Inr []
         else resolve RegExp_new site 0 configurations)"

section \<open>A fragment of the regular expressions of ECMAScript\<close>

text \<open>
  The constructor is a parameter of the rule; to run the rule on concrete statements, this
  section interprets a fragment of the pattern language (without the flags \<^verbatim>\<open>u\<close> and
  \<^verbatim>\<open>v\<close>): pattern characters, \<^verbatim>\<open>.\<close>, the assertions \<^verbatim>\<open>^\<close>, \<^verbatim>\<open>$\<close>, \<^verbatim>\<open>\b\<close> and \<^verbatim>\<open>\B\<close>, the class
  escapes \<^verbatim>\<open>\d \D \w \W \s \S\<close>, the control escapes \<^verbatim>\<open>\f \n \r \t \v\<close>, escaped punctuation,
  groups \<^verbatim>\<open>( )\<close> and \<^verbatim>\<open>(?: )\<close>, alternatives, and the quantifiers \<^verbatim>\<open>* + ?\<close> with their lazy
  forms. Character classes in brackets, braces, look-around, named groups, back
  references and the remaining escapes are outside the fragment.

  Only \<^verbatim>\<open>test\<close> is modelled, so a regular expression denotes, from a position of the
  input, the positions where a match may end; captures and the order in which a
  backtracking matcher finds the matches do not show in the result.
\<close>

datatype assertion = LineStart | LineEnd | WordBoundary | NotWordBoundary

datatype class_escape = DigitClass | WordClass | SpaceClass

datatype regex =
  Empty
| Character char
| AnyCharacter
| ClassEscape class_escape bool
| Assertion assertion
| Sequence regex regex
| Disjunction regex regex
| Star regex
| Plus regex
| Optional regex

record regexp_flags =
  ignoreCase :: bool
  multiline :: bool
  dotAll :: bool
  sticky :: bool

text \<open>
  The flags: a character that is no flag, a flag given twice, and \<^verbatim>\<open>u\<close> together with \<^verbatim>\<open>v\<close>
  are syntax errors; \<^verbatim>\<open>g\<close> and \<^verbatim>\<open>d\<close> do not change the result of one \<^verbatim>\<open>test\<close> from index 0.
\<close>

definition parse_flags :: "string \<Rightarrow> error + regexp_flags" where
  "parse_flags flags =
     (if \<not> list_all flag_character flags \<or> \<not> distinct flags
         \<or> (List.member flags CHR ''u'' \<and> List.member flags CHR ''v'')
      then Inl SyntaxError
      else if List.member flags CHR ''u'' \<or> List.member flags CHR ''v'' then Inl NotModelled
      else Inr \<lparr> ignoreCase = List.member flags CHR ''i'',
                 multiline = List.member flags CHR ''m'',
                 dotAll = List.member flags CHR ''s'',
                 sticky = List.member flags CHR ''y'' \<rparr>)"

subsection \<open>Characters\<close>

definition code_unit :: "char \<Rightarrow> nat" where
  "code_unit c = of_char c"

definition word_character :: "char \<Rightarrow> bool" where
  "word_character c =
     (let n = code_unit c
      in (97 \<le> n \<and> n \<le> 122) \<or> (65 \<le> n \<and> n \<le> 90) \<or> (48 \<le> n \<and> n \<le> 57) \<or> n = 95)"

definition digit_character :: "char \<Rightarrow> bool" where
  "digit_character c = (48 \<le> code_unit c \<and> code_unit c \<le> 57)"

definition space_character :: "char \<Rightarrow> bool" where
  "space_character c = List.member [9, 10, 11, 12, 13, 32, 160] (code_unit c)"

text \<open>
  \<^verbatim>\<open>Canonicalize\<close> without the Unicode flags: the upper case of the code unit when that is
  one code unit again. Below 256 this moves the letters \<^verbatim>\<open>a\<close> to \<^verbatim>\<open>z\<close> and the code units
  224 to 254 except 247; the upper case of 181 and of 255 lies above 255, where no
  character of the model is mapped.
\<close>

definition canonicalize :: "regexp_flags \<Rightarrow> char \<Rightarrow> char" where
  "canonicalize f c =
     (let n = code_unit c
      in if ignoreCase f \<and> ((97 \<le> n \<and> n \<le> 122) \<or> (224 \<le> n \<and> n \<le> 254 \<and> n \<noteq> 247))
         then char_of (n - 32) else c)"

definition in_class :: "class_escape \<Rightarrow> char \<Rightarrow> bool" where
  "in_class cl c =
     (case cl of
        DigitClass \<Rightarrow> digit_character c
      | WordClass \<Rightarrow> word_character c
      | SpaceClass \<Rightarrow> space_character c)"

subsection \<open>Matching\<close>

text \<open>
  A position of the input: the character before it, if any, and the input from it on.
\<close>

type_synonym position = "char option \<times> string"

definition word_before :: "position \<Rightarrow> bool" where
  "word_before p = (case fst p of None \<Rightarrow> False | Some c \<Rightarrow> word_character c)"

definition word_after :: "position \<Rightarrow> bool" where
  "word_after p = (case snd p of [] \<Rightarrow> False | c # _ \<Rightarrow> word_character c)"

definition assertion_holds :: "regexp_flags \<Rightarrow> assertion \<Rightarrow> position \<Rightarrow> bool" where
  "assertion_holds f a p =
     (case a of
        LineStart \<Rightarrow>
          (case fst p of None \<Rightarrow> True | Some c \<Rightarrow> multiline f \<and> LineTerminator c)
      | LineEnd \<Rightarrow>
          (case snd p of [] \<Rightarrow> True | c # _ \<Rightarrow> multiline f \<and> LineTerminator c)
      | WordBoundary \<Rightarrow> word_before p \<noteq> word_after p
      | NotWordBoundary \<Rightarrow> word_before p = word_after p)"

text \<open>One character of the input, if it satisfies the test of an atom.\<close>

definition consume :: "(char \<Rightarrow> bool) \<Rightarrow> position \<Rightarrow> position list" where
  "consume ok p = (case snd p of [] \<Rightarrow> [] | c # cs \<Rightarrow> if ok c then [(Some c, cs)] else [])"

text \<open>
  The positions reachable by repeating \<open>step\<close>: each round adds the positions one more
  repetition away, and a repetition that consumes nothing adds none.
\<close>

fun closure :: "(position \<Rightarrow> position list) \<Rightarrow> nat \<Rightarrow> position list \<Rightarrow> position list" where
  "closure step 0 ps = ps"
| "closure step (Suc k) ps = closure step k (remdups (ps @ concat (map step ps)))"

fun ends :: "regexp_flags \<Rightarrow> regex \<Rightarrow> position \<Rightarrow> position list" where
  "ends f Empty p = [p]"
| "ends f (Character c) p = consume (\<lambda>x. canonicalize f x = canonicalize f c) p"
| "ends f AnyCharacter p = consume (\<lambda>x. dotAll f \<or> \<not> LineTerminator x) p"
| "ends f (ClassEscape cl negated) p = consume (\<lambda>x. in_class cl x \<noteq> negated) p"
| "ends f (Assertion a) p = (if assertion_holds f a p then [p] else [])"
| "ends f (Sequence r s) p = concat (map (ends f s) (ends f r p))"
| "ends f (Disjunction r s) p = ends f r p @ ends f s p"
| "ends f (Star r) p = closure (ends f r) (Suc (length (snd p))) [p]"
| "ends f (Plus r) p =
     concat (map (\<lambda>q. closure (ends f r) (Suc (length (snd q))) [q]) (ends f r p))"
| "ends f (Optional r) p = p # ends f r p"

text \<open>
  \<^verbatim>\<open>test\<close> with \<^verbatim>\<open>lastIndex\<close> 0: a match from some index of the input, or from index 0 only
  when the flag \<^verbatim>\<open>y\<close> is set.
\<close>

fun search :: "regexp_flags \<Rightarrow> regex \<Rightarrow> char option \<Rightarrow> string \<Rightarrow> bool" where
  "search f r prev [] = (ends f r (prev, []) \<noteq> [])"
| "search f r prev (c # cs) = (ends f r (prev, c # cs) \<noteq> [] \<or> search f r (Some c) cs)"

definition regexp_test :: "regexp_flags \<Rightarrow> regex \<Rightarrow> RegExp" where
  "regexp_test f r input =
     (if sticky f then ends f r (None, input) \<noteq> [] else search f r None input)"

subsection \<open>Parsing a source\<close>

text \<open>
  The parser reads the source from left to right. It holds the alternatives of the group
  it is in that are finished and the terms of the alternative it is reading, both newest
  first, and a stack of the same for the groups around. A term remembers what may follow
  it: a quantifier after an atom, only the lazy mark \<^verbatim>\<open>?\<close> after a quantifier, and neither
  after an assertion or a lazy quantifier.
\<close>

datatype followable = Atom | Quantified | Closed

type_synonym frame = "regex list \<times> (regex \<times> followable) list"

definition sequence_of :: "(regex \<times> followable) list \<Rightarrow> regex" where
  "sequence_of terms = foldl (\<lambda>acc t. Sequence (fst t) acc) Empty terms"

definition disjunction_of :: "frame \<Rightarrow> regex" where
  "disjunction_of fr = foldl (\<lambda>acc a. Disjunction a acc) (sequence_of (snd fr)) (fst fr)"

definition push_term :: "regex \<times> followable \<Rightarrow> frame \<Rightarrow> frame" where
  "push_term t fr = (fst fr, t # snd fr)"

definition quantify :: "char \<Rightarrow> regex \<Rightarrow> regex" where
  "quantify q r = (if q = CHR ''*'' then Star r else if q = CHR ''+'' then Plus r else Optional r)"

text \<open>The atom or assertion that a backslash and the character \<open>e\<close> denote, if modelled.\<close>

definition escape :: "char \<Rightarrow> (regex \<times> followable) option" where
  "escape e =
     (if e = CHR ''b'' then Some (Assertion WordBoundary, Closed)
      else if e = CHR ''B'' then Some (Assertion NotWordBoundary, Closed)
      else if e = CHR ''d'' then Some (ClassEscape DigitClass False, Atom)
      else if e = CHR ''D'' then Some (ClassEscape DigitClass True, Atom)
      else if e = CHR ''w'' then Some (ClassEscape WordClass False, Atom)
      else if e = CHR ''W'' then Some (ClassEscape WordClass True, Atom)
      else if e = CHR ''s'' then Some (ClassEscape SpaceClass False, Atom)
      else if e = CHR ''S'' then Some (ClassEscape SpaceClass True, Atom)
      else if e = CHR ''f'' then Some (Character (CHR 0x0C), Atom)
      else if e = CHR ''n'' then Some (Character (CHR 0x0A), Atom)
      else if e = CHR ''r'' then Some (Character (CHR 0x0D), Atom)
      else if e = CHR ''t'' then Some (Character (CHR 0x09), Atom)
      else if e = CHR ''v'' then Some (Character (CHR 0x0B), Atom)
      else if word_character e \<or> code_unit e \<ge> 128 then None
      else Some (Character e, Atom))"

fun parse :: "frame \<Rightarrow> frame list \<Rightarrow> string \<Rightarrow> error + regex" where
  "parse cur stack [] = (if stack = [] then Inr (disjunction_of cur) else Inl SyntaxError)"
| "parse cur stack (c # cs) =
     (if c = CHR ''('' then
        (if take 2 cs = ''?:'' then parse ([], []) (cur # stack) (drop 2 cs)
         else if take 1 cs = ''?'' then Inl NotModelled
         else parse ([], []) (cur # stack) cs)
      else if c = CHR '')'' then
        (case stack of
           [] \<Rightarrow> Inl SyntaxError
         | outer # stack' \<Rightarrow> parse (push_term (disjunction_of cur, Atom) outer) stack' cs)
      else if c = CHR ''|'' then parse (sequence_of (snd cur) # fst cur, []) stack cs
      else if c = CHR ''*'' \<or> c = CHR ''+'' \<or> c = CHR ''?'' then
        (case snd cur of
           [] \<Rightarrow> Inl SyntaxError
         | (r, fl) # terms \<Rightarrow>
             (case fl of
                Atom \<Rightarrow> parse (fst cur, (quantify c r, Quantified) # terms) stack cs
              | Quantified \<Rightarrow>
                  if c = CHR ''?'' then parse (fst cur, (r, Closed) # terms) stack cs
                  else Inl SyntaxError
              | Closed \<Rightarrow> Inl SyntaxError))
      else if c = CHR 0x5C then
        (case cs of
           [] \<Rightarrow> Inl SyntaxError
         | e # cs' \<Rightarrow>
             (case escape e of
                None \<Rightarrow> Inl NotModelled
              | Some t \<Rightarrow> parse (push_term t cur) stack cs'))
      else if c = CHR ''['' \<or> c = CHR '']'' \<or> c = CHR ''{'' \<or> c = CHR ''}'' then Inl NotModelled
      else if c = CHR ''.'' then parse (push_term (AnyCharacter, Atom) cur) stack cs
      else if c = CHR ''^'' then parse (push_term (Assertion LineStart, Closed) cur) stack cs
      else if c = CHR ''$'' then parse (push_term (Assertion LineEnd, Closed) cur) stack cs
      else parse (push_term (Character c, Atom) cur) stack cs)"

text \<open>\<^verbatim>\<open>new RegExp(source, flags)\<close> on the fragment.\<close>

definition ecma262_RegExp :: RegExp_ctor where
  "ecma262_RegExp source flags =
     (case parse_flags flags of
        Inl e \<Rightarrow> Inl e
      | Inr f \<Rightarrow>
          (case parse ([], []) [] source of
             Inl e \<Rightarrow> Inl e
           | Inr r \<Rightarrow> Inr (regexp_test f r)))"

text \<open>Compiling a pattern and testing the result on an input, as one outcome.\<close>

definition test_on :: "error + RegExp \<Rightarrow> string \<Rightarrow> error + bool" where
  "test_on compiled input =
     (case compiled of Inl e \<Rightarrow> Inl e | Inr regex \<Rightarrow> Inr (regex input))"

section \<open>The whole-word match in the words of the specification\<close>

text \<open>
  The specification describes the matcher of a plain pattern by its effect: the pattern
  occurs in the text as a complete word, with a word boundary on both sides, compared
  without regard to case. \<open>spec_word_here\<close> says so for an occurrence that starts at a
  given position, \<open>spec_whole_word\<close> for an occurrence anywhere in the text.
\<close>

definition spec_same_word :: "string \<Rightarrow> string \<Rightarrow> bool" where
  "spec_same_word u w =
     (let f = \<lparr> ignoreCase = True, multiline = False, dotAll = False, sticky = False \<rparr>
      in map (canonicalize f) u = map (canonicalize f) w)"

definition spec_word_here :: "string \<Rightarrow> position \<Rightarrow> bool" where
  "spec_word_here w p =
     (let n = length w; found = take n (snd p);
          after = (if found = [] then fst p else Some (last found), drop n (snd p))
      in n \<le> length (snd p) \<and> spec_same_word found w \<and>
         word_before p \<noteq> word_after p \<and> word_before after \<noteq> word_after after)"

fun spec_word_from :: "string \<Rightarrow> char option \<Rightarrow> string \<Rightarrow> bool" where
  "spec_word_from w prev [] = spec_word_here w (prev, [])"
| "spec_word_from w prev (c # cs) = (spec_word_here w (prev, c # cs) \<or> spec_word_from w (Some c) cs)"

definition spec_whole_word :: "string \<Rightarrow> string \<Rightarrow> bool" where
  "spec_whole_word w input = spec_word_from w None input"

section \<open>The regular expression of a plain word\<close>

text \<open>
  The characters with a meaning of their own in a source, and the regular expression that
  the parser builds for a plain pattern without them: a word boundary, the characters
  of the pattern, a word boundary.
\<close>

definition syntax_character :: "char \<Rightarrow> bool" where
  "syntax_character c = (c = CHR 0x5C \<or> List.member ''^$.*+?()[]{}|'' c)"

definition word_regex :: "string \<Rightarrow> regex" where
  "word_regex w =
     Sequence (Assertion WordBoundary)
       (foldr (\<lambda>c r. Sequence (Character c) r) w (Sequence (Assertion WordBoundary) Empty))"

definition ignoreCase_only :: regexp_flags where
  "ignoreCase_only = \<lparr> ignoreCase = True, multiline = False, dotAll = False, sticky = False \<rparr>"

section \<open>Configurations and statements for examples\<close>

text \<open>
  The shapes that the README uses: a configuration for \<^verbatim>\<open>console\<close> (no \<^verbatim>\<open>customLoggers\<close>,
  no \<^verbatim>\<open>excludeLevels\<close>), a configuration for custom loggers, and a statement
  \<^verbatim>\<open>object.method(...)\<close> whose arguments are given as nodes.
\<close>

definition console_configuration :: "string list \<Rightarrow> logic_op option \<Rightarrow> configuration" where
  "console_configuration patterns lg =
     \<lparr> forbiddenPatterns = patterns, logic = lg, excludeLevels = None, customLoggers = None \<rparr>"

definition logger_configuration ::
  "string list \<Rightarrow> logic_op option \<Rightarrow> string list \<Rightarrow> configuration" where
  "logger_configuration patterns lg loggers =
     \<lparr> forbiddenPatterns = patterns, logic = lg, excludeLevels = None,
       customLoggers = Some loggers \<rparr>"

definition method_call :: "string \<Rightarrow> string \<Rightarrow> node list \<Rightarrow> call_expression" where
  "method_call obj method args =
     \<lparr> callee = MemberExpression (Identifier obj) (Identifier method), arguments = args \<rparr>"

section \<open>Properties of the array methods\<close>

lemma join_Nil: "join sep [] = []"
  by (simp add: join_def)

lemma foldl_join_step: "foldl (\<lambda>R next. R @ sep @ next) x ys = x @ concat (map (\<lambda>y. sep @ y) ys)"
  by (induction ys arbitrary: x) simp_all

lemma join_Cons: "join sep (x # ys) = x @ concat (map (\<lambda>y. sep @ y) ys)"
  by (simp add: join_def foldl_join_step)

lemma join_Cons_Cons: "join sep (x # y # ys) = x @ sep @ join sep (y # ys)"
  by (simp add: join_Cons)

section \<open>The logic combinator\<close>

lemma exactly_one_index:
  "(length (filter (\<lambda>b. b) bs) = 1) = (\<exists>!i. i < length bs \<and> bs ! i)"
proof -
  define P where "P = (\<lambda>i. i < length bs \<and> bs ! i)"
  have len: "length (filter (\<lambda>b. b) bs) = card {i. P i}"
    unfolding P_def by (rule length_filter_conv_card)
  have card: "(card {i. P i} = 1) = (\<exists>x. {i. P i} = {x})"
    by (simp add: card_1_singleton_iff)
  have "(\<exists>x. {i. P i} = {x}) = (\<exists>!i. P i)"
  proof
    assume "\<exists>x. {i. P i} = {x}"
    then obtain x where "{i. P i} = {x}" ..
    then have "\<And>i. P i = (i = x)" by blast
    then show "\<exists>!i. P i" by simp
  next
    assume "\<exists>!i. P i"
    then obtain x where "P x" and "\<And>y. P y \<Longrightarrow> y = x" by blast
    then have "{i. P i} = {x}" by blast
    then show "\<exists>x. {i. P i} = {x}" ..
  qed
  with len card have "(length (filter (\<lambda>b. b) bs) = 1) = (\<exists>!i. P i)" by simp
  then show ?thesis unfolding P_def .
qed

text \<open>
  Claim C8. Over any sequence of per-pattern results, \<open>XOR\<close> is true iff exactly one
  position of the sequence holds a true result (so \<open>[True, True]\<close> gives false and
  \<open>[True, False]\<close> gives true), \<open>OR\<close> is true iff some position holds a true result, and
  \<open>AND\<close> is true iff every position does.
\<close>

theorem C8_logic_combinator:
  "combine (Some XOR) bs = (\<exists>!i. i < length bs \<and> bs ! i) \<and>
   combine (Some XOR) [True, True] = False \<and>
   combine (Some XOR) [True, False] = True \<and>
   combine (Some OR) bs = (\<exists>i. i < length bs \<and> bs ! i) \<and>
   combine (Some AND) bs = (\<forall>i. i < length bs \<longrightarrow> bs ! i)"
proof -
  have x: "combine (Some XOR) bs = (\<exists>!i. i < length bs \<and> bs ! i)"
    using exactly_one_index [of bs] by (simp add: combine_def)
  have o: "combine (Some OR) bs = (\<exists>i. i < length bs \<and> bs ! i)"
    by (simp add: combine_def list_ex_length)
  have a: "combine (Some AND) bs = (\<forall>i. i < length bs \<longrightarrow> bs ! i)"
    by (simp add: combine_def list_all_length)
  have "combine (Some XOR) [True, True] = False" "combine (Some XOR) [True, False] = True"
    by (simp_all add: combine_def)
  with x o a show ?thesis by simp
qed

theorem C8_logic_combinator_witness:
  "combine (Some XOR) [True, False, True] = False \<and>
   combine (Some OR) [False, False, True] = True \<and>
   combine (Some AND) [True, False, True] = False"
  using C8_logic_combinator [of "[True, False, True]"]
  by (simp add: combine_def)

section \<open>The configuration validator\<close>

lemma foldl_reports:
  "foldl (\<lambda>reports (index, config). reports @ validateConfig config index) acc (enumerate n cs) =
   acc @ concat (map (\<lambda>(index, config). validateConfig config index) (enumerate n cs))"
  by (induction cs arbitrary: acc n) simp_all

lemma map_enumerate_nth:
  "map (\<lambda>(index, config). g config index) (enumerate 0 cs) = map (\<lambda>i. g (cs ! i) i) [0..<length cs]"
  by (rule nth_equalityI) (simp_all add: nth_enumerate_eq)

lemma Program_by_index:
  "Program configurations =
   concat (map (\<lambda>i. validateConfig (configurations ! i) i) [0..<length configurations])"
  by (simp add: Program_def foldl_reports map_enumerate_nth)

text \<open>
  Claim C5. On one configuration the validator reports \<open>missingLogic\<close> exactly when there
  is more than one pattern and no logic, \<open>unnecessaryLogic\<close> exactly when there is exactly
  one pattern and a logic, nothing for one pattern without logic, and never more than one
  report. The \<open>Program\<close> handler reports, for every index of the configuration list in
  order, what the validator reports for the configuration at that index: a report for one
  configuration does not stop the validation of those after it.
\<close>

theorem C5_validator:
  "(\<exists>l c. missingLogic l c \<in> set (validateConfig config index)) =
     (1 < length (forbiddenPatterns config) \<and> logic config = None) \<and>
   (\<exists>l c. unnecessaryLogic l c \<in> set (validateConfig config index)) =
     (length (forbiddenPatterns config) = 1 \<and> logic config \<noteq> None) \<and>
   (length (forbiddenPatterns config) = 1 \<and> logic config = None \<longrightarrow>
      validateConfig config index = []) \<and>
   length (validateConfig config index) \<le> 1 \<and>
   Program configurations =
     concat (map (\<lambda>i. validateConfig (configurations ! i) i) [0..<length configurations])"
proof -
  have m: "(\<exists>l c. missingLogic l c \<in> set (validateConfig config index)) =
     (1 < length (forbiddenPatterns config) \<and> logic config = None)"
    by (simp add: validateConfig_def)
  have u: "(\<exists>l c. unnecessaryLogic l c \<in> set (validateConfig config index)) =
     (length (forbiddenPatterns config) = 1 \<and> logic config \<noteq> None)"
    by (simp add: validateConfig_def)
  have n: "length (forbiddenPatterns config) = 1 \<and> logic config = None \<longrightarrow>
      validateConfig config index = []"
    by (simp add: validateConfig_def)
  have l: "length (validateConfig config index) \<le> 1"
    by (simp add: validateConfig_def)
  from m u n l Program_by_index [of configurations] show ?thesis by simp
qed

theorem C5_validator_witness:
  "validateConfig \<lparr> forbiddenPatterns = [''debug''], logic = None,
                     excludeLevels = None, customLoggers = None \<rparr> 0 = [] \<and>
   Program [\<lparr> forbiddenPatterns = [''debug'', ''trace''], logic = None,
              excludeLevels = None, customLoggers = None \<rparr>,
            \<lparr> forbiddenPatterns = [''debug''], logic = Some OR,
              excludeLevels = None, customLoggers = None \<rparr>,
            \<lparr> forbiddenPatterns = [''debug''], logic = None,
              excludeLevels = None, customLoggers = None \<rparr>]
     = [missingLogic 1 1, unnecessaryLogic 1 2]"
  using C5_validator [of "\<lparr> forbiddenPatterns = [''debug''], logic = None,
                     excludeLevels = None, customLoggers = None \<rparr>" 0
     "[\<lparr> forbiddenPatterns = [''debug'', ''trace''], logic = None,
              excludeLevels = None, customLoggers = None \<rparr>,
            \<lparr> forbiddenPatterns = [''debug''], logic = Some OR,
              excludeLevels = None, customLoggers = None \<rparr>,
            \<lparr> forbiddenPatterns = [''debug''], logic = None,
              excludeLevels = None, customLoggers = None \<rparr>]"]
  by (simp add: validateConfig_def upt_rec)

section \<open>The matched text\<close>

lemma string_literal_value_None: "(string_literal_value a = None) = (\<forall>s. a \<noteq> Literal (Str s))"
proof (cases a)
  case (Literal v)
  then show ?thesis by (cases v) simp_all
qed simp_all

lemma messageArgsMap_append: "messageArgsMap (xs @ ys) = messageArgsMap xs @ messageArgsMap ys"
  by (simp add: messageArgsMap_def map_filter_def)

lemma messageArgsMap_skip: "string_literal_value a = None \<Longrightarrow> messageArgsMap (a # ys) = messageArgsMap ys"
  by (simp add: messageArgsMap_def map_filter_simps)

lemma messageArgsMap_string: "messageArgsMap (Literal (Str s) # ys) = s # messageArgsMap ys"
  by (simp add: messageArgsMap_def map_filter_simps)

lemma messageArgsMap_Nil_iff: "(messageArgsMap args = []) = (\<forall>s. Literal (Str s) \<notin> set args)"
proof (induction args)
  case Nil
  then show ?case by (simp add: messageArgsMap_def map_filter_simps)
next
  case (Cons a args)
  show ?case
  proof (cases "string_literal_value a")
    case None
    then have "\<forall>s. a \<noteq> Literal (Str s)" by (simp add: string_literal_value_None)
    with None Cons.IH show ?thesis by (auto simp: messageArgsMap_skip)
  next
    case (Some s)
    then have "a = Literal (Str s)" by (cases a rule: string_literal_value.cases) simp_all
    then show ?thesis by (auto simp: messageArgsMap_string)
  qed
qed

lemma join_first: "join sep (x # ys) = (if ys = [] then x else x @ sep @ join sep ys)"
  by (cases ys) (simp_all add: join_Cons)

text \<open>
  Claim C9. The text that is matched is the \<^verbatim>\<open>join(" ")\<close> of the values of the arguments
  that are string literals, in the order of the arguments: it is empty without arguments
  and when no argument is a string literal; an argument that is no string literal can be
  removed from any place of the argument list without changing the text; and a string
  literal in front contributes its value, followed by one space and the text of the
  remaining arguments when one of those is a string literal. The function is total (no
  argument raises an error), and its result is the text of the call site that the
  handler matches.
\<close>

theorem C9_matched_text:
  "messageArguments [] = [] \<and>
   ((\<forall>s. Literal (Str s) \<notin> set args) \<longrightarrow> messageArguments args = []) \<and>
   ((\<forall>s. a \<noteq> Literal (Str s)) \<longrightarrow> messageArguments (xs @ a # ys) = messageArguments (xs @ ys)) \<and>
   messageArguments (Literal (Str s) # args) =
     (if \<exists>t. Literal (Str t) \<in> set args then s @ '' '' @ messageArguments args else s) \<and>
   literalText (classify configurations nd) = messageArguments (arguments nd)"
proof -
  have e: "messageArguments [] = []"
    by (simp add: messageArguments_def messageArgsMap_def map_filter_simps join_Nil)
  have n: "(\<forall>s. Literal (Str s) \<notin> set args) \<longrightarrow> messageArguments args = []"
  proof
    assume "\<forall>s. Literal (Str s) \<notin> set args"
    then have "messageArgsMap args = []" by (simp add: messageArgsMap_Nil_iff)
    then show "messageArguments args = []" by (simp add: messageArguments_def join_Nil)
  qed
  have k: "(\<forall>s. a \<noteq> Literal (Str s)) \<longrightarrow> messageArguments (xs @ a # ys) = messageArguments (xs @ ys)"
  proof
    assume "\<forall>s. a \<noteq> Literal (Str s)"
    then have "string_literal_value a = None" by (simp add: string_literal_value_None)
    then have "messageArgsMap (xs @ a # ys) = messageArgsMap (xs @ ys)"
      by (simp add: messageArgsMap_append messageArgsMap_skip)
    then show "messageArguments (xs @ a # ys) = messageArguments (xs @ ys)"
      by (simp add: messageArguments_def)
  qed
  have c: "messageArguments (Literal (Str s) # args) =
     (if \<exists>t. Literal (Str t) \<in> set args then s @ '' '' @ messageArguments args else s)"
    by (simp add: messageArguments_def messageArgsMap_string join_first messageArgsMap_Nil_iff)
  have t: "literalText (classify configurations nd) = messageArguments (arguments nd)"
    by (simp add: classify_def Let_def)
  from e n k c t show ?thesis by simp
qed

text \<open>
  \<^verbatim>\<open>console.log(variable, "debug")\<close> has the text \<^verbatim>\<open>debug\<close>, and a call without string
  literals has the empty text.
\<close>

theorem C9_matched_text_witness:
  "messageArguments [Identifier ''variable'', Literal (Str ''debug'')] = ''debug'' \<and>
   messageArguments [Literal (Str ''debug''), Literal (Num 7), Literal (Str ''some text'')]
     = ''debug some text'' \<and>
   messageArguments [Identifier ''variable'', Literal (Num 7), Literal Null] = []"
proof -
  have skip: "messageArguments (xs @ a # ys) = messageArguments (xs @ ys)"
    if "\<forall>s. a \<noteq> Literal (Str s)" for a xs ys
    using that C9_matched_text [where a = a and xs = xs and ys = ys] by blast
  have front: "messageArguments (Literal (Str s) # args) =
     (if \<exists>t. Literal (Str t) \<in> set args then s @ '' '' @ messageArguments args else s)" for s args
    using C9_matched_text [where s = s and args = args] by blast
  have none: "\<forall>s. Literal (Str s) \<notin> set [Identifier ''variable'', Literal (Num 7), Literal Null]"
    by simp
  have empty: "messageArguments [Identifier ''variable'', Literal (Num 7), Literal Null] = []"
    using none C9_matched_text [where args = "[Identifier ''variable'', Literal (Num 7), Literal Null]"]
    by blast
  have "messageArguments ([Literal (Str ''debug'')] @ Literal (Num 7) # [Literal (Str ''some text'')]) =
        messageArguments ([Literal (Str ''debug'')] @ [Literal (Str ''some text'')])"
    by (rule skip) simp
  also have "\<dots> = ''debug some text''"
    by (simp add: front)
  finally have three: "messageArguments [Literal (Str ''debug''), Literal (Num 7), Literal (Str ''some text'')]
     = ''debug some text''"
    by simp
  have "messageArguments ([] @ Identifier ''variable'' # [Literal (Str ''debug'')]) =
        messageArguments ([] @ [Literal (Str ''debug'')])"
    by (rule skip) simp
  also have "\<dots> = ''debug''"
    by (simp add: front)
  finally have two: "messageArguments [Identifier ''variable'', Literal (Str ''debug'')] = ''debug''"
    by simp
  from two three empty show ?thesis by simp
qed

section \<open>The loop over the configurations\<close>

text \<open>
  A configuration is passed over at a call site when its level is excluded, when it does
  not apply, or when its patterns compile and do not match.
\<close>

lemma resolve_passed_over:
  "list_all (\<lambda>c. levelExcluded site c \<or>
                  \<not> (appliesToConsole site c \<or> appliesToCustomLogger site c) \<or>
                  matchesPattern ctor (literalText site) c = Inr False) before \<Longrightarrow>
   resolve ctor site index (before @ rest) = resolve ctor site (index + length before) rest"
  by (induction before arbitrary: index) auto

lemma loggerName_of_applies:
  "appliesToConsole site config \<or> appliesToCustomLogger site config \<Longrightarrow>
   \<exists>nm. loggerName_of site config = Inr nm"
  by (auto simp: loggerName_of_def appliesToCustomLogger_def)

lemma resolve_first_match:
  assumes "\<not> levelExcluded site config"
    and "appliesToConsole site config \<or> appliesToCustomLogger site config"
    and "matchesPattern ctor (literalText site) config = Inr True"
  shows "\<exists>d. resolve ctor site index (config # rest) = Inr [forbiddenConsole (callNode site) d] \<and>
             configurationIndex d = index \<and> logMethod d = logLevel site \<and>
             explanation d = explanation_of config"
proof -
  from loggerName_of_applies [OF assms(2)] obtain nm where "loggerName_of site config = Inr nm" ..
  with assms show ?thesis by (simp add: forbiddenConsole_report_def)
qed

lemma resolve_at_most_one: "resolve ctor site index cs = Inr rs \<Longrightarrow> length rs \<le> 1"
proof (induction cs arbitrary: index)
  case Nil
  then show ?case by simp
next
  case (Cons c cs)
  then show ?case by (auto split: if_splits sum.splits)
qed

lemma resolve_report_matched:
  "resolve ctor site index cs = Inr rs \<Longrightarrow> r \<in> set rs \<Longrightarrow>
   \<exists>d. r = forbiddenConsole (callNode site) d \<and> index \<le> configurationIndex d \<and>
       configurationIndex d < index + length cs \<and>
       matchesPattern ctor (literalText site) (cs ! (configurationIndex d - index)) = Inr True"
proof (induction cs arbitrary: index)
  case Nil
  then show ?case by simp
next
  case (Cons c cs)
  show ?case
  proof (cases "\<not> levelExcluded site c \<and> (appliesToConsole site c \<or> appliesToCustomLogger site c) \<and>
                matchesPattern ctor (literalText site) c = Inr True")
    case True
    with Cons.prems show ?thesis
      by (auto simp: forbiddenConsole_report_def split: sum.splits)
  next
    case False
    with Cons.prems have "resolve ctor site (Suc index) cs = Inr rs"
      by (auto split: if_splits sum.splits)
    from Cons.IH [OF this Cons.prems(2)] obtain d where d: "r = forbiddenConsole (callNode site) d"
      "Suc index \<le> configurationIndex d" "configurationIndex d < Suc index + length cs"
      "matchesPattern ctor (literalText site) (cs ! (configurationIndex d - Suc index)) = Inr True"
      by blast
    from d(2) have "configurationIndex d - index = Suc (configurationIndex d - Suc index)" by simp
    with d show ?thesis by auto
  qed
qed

lemma resolve_reaches:
  assumes "\<not> levelExcluded site config"
    and "appliesToConsole site config \<or> appliesToCustomLogger site config"
    and "matchesPattern ctor (literalText site) config = Inr True"
  shows "(\<exists>e. resolve ctor site index (before @ config # rest) = Inl e) \<or>
         (\<exists>d. resolve ctor site index (before @ config # rest) = Inr [forbiddenConsole (callNode site) d] \<and>
              configurationIndex d \<le> index + length before)"
proof (induction before arbitrary: index)
  case Nil
  from assms resolve_first_match [OF assms, of index rest] show ?case by auto
next
  case (Cons c before)
  let ?tail = "before @ config # rest"
  have IH: "(\<exists>e. resolve ctor site (Suc index) ?tail = Inl e) \<or>
         (\<exists>d. resolve ctor site (Suc index) ?tail = Inr [forbiddenConsole (callNode site) d] \<and>
              configurationIndex d \<le> index + length (c # before))"
    using Cons.IH [of "Suc index"] by simp
  consider (skip) "levelExcluded site c \<or> \<not> (appliesToConsole site c \<or> appliesToCustomLogger site c)"
    | (raise) e where "\<not> levelExcluded site c" "appliesToConsole site c \<or> appliesToCustomLogger site c"
        "matchesPattern ctor (literalText site) c = Inl e"
    | (miss) "\<not> levelExcluded site c" "appliesToConsole site c \<or> appliesToCustomLogger site c"
        "matchesPattern ctor (literalText site) c = Inr False"
    | (hit) "\<not> levelExcluded site c" "appliesToConsole site c \<or> appliesToCustomLogger site c"
        "matchesPattern ctor (literalText site) c = Inr True"
  proof -
    have "matchesPattern ctor (literalText site) c = Inr True \<or>
          matchesPattern ctor (literalText site) c = Inr False \<or>
          (\<exists>e. matchesPattern ctor (literalText site) c = Inl e)"
      by (cases "matchesPattern ctor (literalText site) c") auto
    then show thesis using skip raise miss hit by blast
  qed
  then show ?case
  proof cases
    case skip
    then have "resolve ctor site index ((c # before) @ config # rest) = resolve ctor site (Suc index) ?tail"
      by auto
    with IH show ?thesis by simp
  next
    case raise
    then have "resolve ctor site index ((c # before) @ config # rest) = Inl e" by simp
    then show ?thesis by simp
  next
    case miss
    then have "resolve ctor site index ((c # before) @ config # rest) = resolve ctor site (Suc index) ?tail"
      by simp
    with IH show ?thesis by simp
  next
    case hit
    from resolve_first_match [OF hit, of index ?tail] obtain d
      where "resolve ctor site index (c # ?tail) = Inr [forbiddenConsole (callNode site) d]"
        and "configurationIndex d = index" by blast
    then show ?thesis by (intro disjI2 exI [of _ d]) simp
  qed
qed

lemma resolve_report_first:
  "resolve ctor site index cs = Inr rs \<Longrightarrow> r \<in> set rs \<Longrightarrow>
   \<exists>d k. r = forbiddenConsole (callNode site) d \<and> configurationIndex d = index + k \<and>
         k < length cs \<and>
         list_all (\<lambda>c. levelExcluded site c \<or>
                         \<not> (appliesToConsole site c \<or> appliesToCustomLogger site c) \<or>
                         matchesPattern ctor (literalText site) c = Inr False) (take k cs) \<and>
         \<not> levelExcluded site (cs ! k) \<and>
         (appliesToConsole site (cs ! k) \<or> appliesToCustomLogger site (cs ! k)) \<and>
         matchesPattern ctor (literalText site) (cs ! k) = Inr True"
proof (induction cs arbitrary: index)
  case Nil
  then show ?case by simp
next
  case (Cons c cs)
  let ?passed = "\<lambda>c. levelExcluded site c \<or>
                      \<not> (appliesToConsole site c \<or> appliesToCustomLogger site c) \<or>
                      matchesPattern ctor (literalText site) c = Inr False"
  show ?case
  proof (cases "\<not> levelExcluded site c \<and> (appliesToConsole site c \<or> appliesToCustomLogger site c) \<and>
                matchesPattern ctor (literalText site) c = Inr True")
    case True
    with Cons.prems obtain d where "r = forbiddenConsole (callNode site) d" "configurationIndex d = index"
      by (auto simp: forbiddenConsole_report_def split: sum.splits)
    with True show ?thesis by (intro exI [of _ d] exI [of _ 0]) simp
  next
    case False
    with Cons.prems have p: "?passed c" and tail: "resolve ctor site (Suc index) cs = Inr rs"
      by (auto split: if_splits sum.splits)
    from Cons.IH [OF tail Cons.prems(2)] obtain d k where
      dk: "r = forbiddenConsole (callNode site) d" "configurationIndex d = Suc index + k" "k < length cs"
        "list_all ?passed (take k cs)" "\<not> levelExcluded site (cs ! k)"
        "appliesToConsole site (cs ! k) \<or> appliesToCustomLogger site (cs ! k)"
        "matchesPattern ctor (literalText site) (cs ! k) = Inr True"
      by blast
    with p show ?thesis by (intro exI [of _ d] exI [of _ "Suc k"]) simp
  qed
qed

lemma map_throwing_Inl:
  "map_throwing f xs = Inl e \<Longrightarrow> \<exists>x. x \<in> set xs \<and> f x = Inl e"
  by (induction xs) (auto split: sum.splits)

lemma matchesPattern_Inl:
  "(matchesPattern ctor input config = Inl e) =
   (map_throwing (parsePattern ctor) (forbiddenPatterns config) = Inl e)"
  by (simp add: matchesPattern_def split: sum.splits)

text \<open>
  An exception that leaves the loop is the exception of \<^verbatim>\<open>matchesPattern\<close> at the first
  configuration that is not passed over.
\<close>

lemma resolve_raises:
  "resolve ctor site index cs = Inl e \<Longrightarrow>
   \<exists>k. k < length cs \<and>
       list_all (\<lambda>c. levelExcluded site c \<or>
                       \<not> (appliesToConsole site c \<or> appliesToCustomLogger site c) \<or>
                       matchesPattern ctor (literalText site) c = Inr False) (take k cs) \<and>
       \<not> levelExcluded site (cs ! k) \<and>
       (appliesToConsole site (cs ! k) \<or> appliesToCustomLogger site (cs ! k)) \<and>
       matchesPattern ctor (literalText site) (cs ! k) = Inl e"
proof (induction cs arbitrary: index)
  case Nil
  then show ?case by simp
next
  case (Cons c cs)
  let ?passed = "\<lambda>c. levelExcluded site c \<or>
                      \<not> (appliesToConsole site c \<or> appliesToCustomLogger site c) \<or>
                      matchesPattern ctor (literalText site) c = Inr False"
  show ?case
  proof (cases "?passed c")
    case True
    with Cons.prems have "resolve ctor site (Suc index) cs = Inl e" by (auto split: if_splits)
    from Cons.IH [OF this] obtain k where
      k: "k < length cs" "list_all ?passed (take k cs)" "\<not> levelExcluded site (cs ! k)"
        "appliesToConsole site (cs ! k) \<or> appliesToCustomLogger site (cs ! k)"
        "matchesPattern ctor (literalText site) (cs ! k) = Inl e"
      by blast
    with True show ?thesis by (intro exI [of _ "Suc k"]) simp
  next
    case False
    then have ne: "\<not> levelExcluded site c"
      and ap: "appliesToConsole site c \<or> appliesToCustomLogger site c"
      and nf: "matchesPattern ctor (literalText site) c \<noteq> Inr False"
      by auto
    have "matchesPattern ctor (literalText site) c = Inl e"
    proof (cases "matchesPattern ctor (literalText site) c")
      case (Inl e')
      with ne ap Cons.prems show ?thesis by simp
    next
      case (Inr b)
      with nf have t: "matchesPattern ctor (literalText site) c = Inr True" by (cases b) simp_all
      from resolve_first_match [OF ne ap t, of index cs] Cons.prems show ?thesis by auto
    qed
    with ne ap show ?thesis by (intro exI [of _ 0]) simp
  qed
qed

lemma matchesPattern_no_logic:
  "logic config = None \<Longrightarrow>
   matchesPattern ctor input config =
     (case map_throwing (parsePattern ctor) (forbiddenPatterns config) of
        Inl e \<Rightarrow> Inl e
      | Inr regexPatterns \<Rightarrow> Inr False)"
  by (simp add: matchesPattern_def combine_def split: sum.splits)

lemma callNode_classify: "callNode (classify configurations nd) = nd"
  by (simp add: classify_def Let_def)

lemma CallExpression_resolve:
  assumes "site = classify configurations nd"
    and "appliesToConsole site config \<or> appliesToCustomLogger site config"
  shows "CallExpression ctor configurations nd = resolve ctor site 0 configurations"
  using assms by (auto simp: CallExpression_def Let_def appliesToConsole_def appliesToCustomLogger_def)

lemma CallExpression_cases:
  "CallExpression ctor configurations nd = Inr [] \<or>
   CallExpression ctor configurations nd = resolve ctor (classify configurations nd) 0 configurations"
  by (simp add: CallExpression_def Let_def)

lemma CallExpression_first_match:
  assumes "site = classify (before @ config # after) nd"
    and "list_all (\<lambda>c. levelExcluded site c \<or>
                         \<not> (appliesToConsole site c \<or> appliesToCustomLogger site c) \<or>
                         matchesPattern ctor (literalText site) c = Inr False) before"
    and "\<not> levelExcluded site config"
    and "appliesToConsole site config \<or> appliesToCustomLogger site config"
    and "matchesPattern ctor (literalText site) config = Inr True"
  shows "\<exists>d. CallExpression ctor (before @ config # after) nd = Inr [forbiddenConsole nd d] \<and>
             configurationIndex d = length before \<and> logMethod d = logLevel site \<and>
             explanation d = explanation_of config"
proof -
  have "CallExpression ctor (before @ config # after) nd =
        resolve ctor site 0 (before @ config # after)"
    using CallExpression_resolve [OF assms(1) assms(4)] .
  also have "\<dots> = resolve ctor site (0 + length before) (config # after)"
    using assms(2) by (rule resolve_passed_over)
  finally have eq: "CallExpression ctor (before @ config # after) nd =
                    resolve ctor site (length before) (config # after)" by simp
  from resolve_first_match [OF assms(3,4,5), of "length before" after]
  obtain d where "resolve ctor site (length before) (config # after) = Inr [forbiddenConsole (callNode site) d]"
    and "configurationIndex d = length before" and "logMethod d = logLevel site"
    and "explanation d = explanation_of config" by blast
  with eq assms(1) show ?thesis by (auto simp: callNode_classify)
qed

section \<open>First match wins\<close>

text \<open>
  Claim C4. A visit of a call expression ends with at most one report. The configurations
  are tried in the order of the list: when every configuration before one is passed over
  (its level is excluded, it does not apply, or its patterns do not match), and that one
  applies, does not exclude the level and has a true combined result, then the visit
  reports exactly the diagnostic with the index of that configuration, whatever the
  configurations after it are: none of them is evaluated, even one that would match.
  Conversely, a report of a visit carries the index of a configuration that applies, does
  not exclude the level and matches, and every configuration before that index was
  passed over.
\<close>

theorem C4_first_match_wins:
  assumes "site = classify (before @ config # after) nd"
  shows "(CallExpression ctor configurations nd = Inr rs \<longrightarrow> length rs \<le> 1) \<and>
         (list_all (\<lambda>c. levelExcluded site c \<or>
                         \<not> (appliesToConsole site c \<or> appliesToCustomLogger site c) \<or>
                         matchesPattern ctor (literalText site) c = Inr False) before \<and>
          \<not> levelExcluded site config \<and>
          (appliesToConsole site config \<or> appliesToCustomLogger site config) \<and>
          matchesPattern ctor (literalText site) config = Inr True \<longrightarrow>
          (\<exists>d. CallExpression ctor (before @ config # after) nd = Inr [forbiddenConsole nd d] \<and>
               configurationIndex d = length before \<and> logMethod d = logLevel site \<and>
               explanation d = explanation_of config)) \<and>
         (CallExpression ctor configurations nd = Inr rs \<and> r \<in> set rs \<longrightarrow>
          (\<exists>d. r = forbiddenConsole nd d \<and> configurationIndex d < length configurations \<and>
               list_all (\<lambda>c. levelExcluded (classify configurations nd) c \<or>
                              \<not> (appliesToConsole (classify configurations nd) c \<or>
                                 appliesToCustomLogger (classify configurations nd) c) \<or>
                              matchesPattern ctor (literalText (classify configurations nd)) c = Inr False)
                 (take (configurationIndex d) configurations) \<and>
               \<not> levelExcluded (classify configurations nd) (configurations ! configurationIndex d) \<and>
               (appliesToConsole (classify configurations nd) (configurations ! configurationIndex d) \<or>
                appliesToCustomLogger (classify configurations nd) (configurations ! configurationIndex d)) \<and>
               matchesPattern ctor (literalText (classify configurations nd))
                 (configurations ! configurationIndex d) = Inr True))"
proof (intro conjI impI)
  assume "CallExpression ctor configurations nd = Inr rs"
  with CallExpression_cases [of ctor configurations nd]
  have "rs = [] \<or> resolve ctor (classify configurations nd) 0 configurations = Inr rs" by auto
  then show "length rs \<le> 1" using resolve_at_most_one by auto
next
  assume "list_all (\<lambda>c. levelExcluded site c \<or>
                         \<not> (appliesToConsole site c \<or> appliesToCustomLogger site c) \<or>
                         matchesPattern ctor (literalText site) c = Inr False) before \<and>
          \<not> levelExcluded site config \<and>
          (appliesToConsole site config \<or> appliesToCustomLogger site config) \<and>
          matchesPattern ctor (literalText site) config = Inr True"
  with CallExpression_first_match [OF assms, of ctor]
  show "\<exists>d. CallExpression ctor (before @ config # after) nd = Inr [forbiddenConsole nd d] \<and>
               configurationIndex d = length before \<and> logMethod d = logLevel site \<and>
               explanation d = explanation_of config"
    by blast
next
  let ?site = "classify configurations nd"
  assume run: "CallExpression ctor configurations nd = Inr rs \<and> r \<in> set rs"
  then have "rs \<noteq> []" by auto
  with run CallExpression_cases [of ctor configurations nd]
  have "resolve ctor ?site 0 configurations = Inr rs" by auto
  from resolve_report_first [OF this, of r] run
  show "\<exists>d. r = forbiddenConsole nd d \<and> configurationIndex d < length configurations \<and>
               list_all (\<lambda>c. levelExcluded ?site c \<or>
                              \<not> (appliesToConsole ?site c \<or> appliesToCustomLogger ?site c) \<or>
                              matchesPattern ctor (literalText ?site) c = Inr False)
                 (take (configurationIndex d) configurations) \<and>
               \<not> levelExcluded ?site (configurations ! configurationIndex d) \<and>
               (appliesToConsole ?site (configurations ! configurationIndex d) \<or>
                appliesToCustomLogger ?site (configurations ! configurationIndex d)) \<and>
               matchesPattern ctor (literalText ?site) (configurations ! configurationIndex d) = Inr True"
    by (auto simp: callNode_classify)
qed

text \<open>
  Three configurations and the statement \<^verbatim>\<open>console.log("debug trace")\<close>: the first is for
  a custom logger and is passed over, the second and the third are for \<^verbatim>\<open>console\<close> and
  both match. The report is that of index 1.
\<close>

theorem C4_first_match_wins_witness:
  "matchesPattern ecma262_RegExp ''debug trace''
     (console_configuration [''debug'', ''trace''] (Some AND)) = Inr True \<and>
   (\<exists>d. CallExpression ecma262_RegExp
           [logger_configuration [''debug'', ''trace''] (Some OR) [''cheese''],
            console_configuration [''debug'', ''info''] (Some OR),
            console_configuration [''debug'', ''trace''] (Some AND)]
           (method_call ''console'' ''log'' [Literal (Str ''debug trace'')])
         = Inr [forbiddenConsole (method_call ''console'' ''log'' [Literal (Str ''debug trace'')]) d] \<and>
        configurationIndex d = 1)"
proof -
  let ?c0 = "logger_configuration [''debug'', ''trace''] (Some OR) [''cheese'']"
  let ?c1 = "console_configuration [''debug'', ''info''] (Some OR)"
  let ?c2 = "console_configuration [''debug'', ''trace''] (Some AND)"
  let ?nd = "method_call ''console'' ''log'' [Literal (Str ''debug trace'')]"
  let ?site = "classify ([?c0] @ ?c1 # [?c2]) ?nd"
  have h: "list_all (\<lambda>c. levelExcluded ?site c \<or>
                         \<not> (appliesToConsole ?site c \<or> appliesToCustomLogger ?site c) \<or>
                         matchesPattern ecma262_RegExp (literalText ?site) c = Inr False) [?c0] \<and>
          \<not> levelExcluded ?site ?c1 \<and>
          (appliesToConsole ?site ?c1 \<or> appliesToCustomLogger ?site ?c1) \<and>
          matchesPattern ecma262_RegExp (literalText ?site) ?c1 = Inr True"
    by code_simp
  have later: "matchesPattern ecma262_RegExp ''debug trace'' ?c2 = Inr True"
    by code_simp
  from C4_first_match_wins [OF refl, where ctor = ecma262_RegExp and before = "[?c0]"
      and config = ?c1 and after = "[?c2]" and nd = ?nd] h
  have "\<exists>d. CallExpression ecma262_RegExp ([?c0] @ ?c1 # [?c2]) ?nd = Inr [forbiddenConsole ?nd d] \<and>
            configurationIndex d = length [?c0]"
    by blast
  with later show ?thesis by simp
qed

section \<open>Configurations without logic\<close>

text \<open>
  Claim C3, as amended. For a configuration without \<open>logic\<close>, \<^verbatim>\<open>matchesPattern\<close> never
  returns true: it returns false on every input when all patterns of the configuration
  compile, and it raises the exception of the constructor otherwise. In either case no
  visit of a call expression reports a diagnostic for that configuration.
\<close>

theorem C3_no_logic_never_matches:
  assumes "logic config = None"
  shows "matchesPattern ctor input config =
           (case map_throwing (parsePattern ctor) (forbiddenPatterns config) of
              Inl e \<Rightarrow> Inl e
            | Inr regexPatterns \<Rightarrow> Inr False) \<and>
         (CallExpression ctor (before @ config # after) nd = Inr rs \<longrightarrow>
          forbiddenConsole n d \<in> set rs \<longrightarrow> configurationIndex d \<noteq> length before)"
proof (intro conjI impI)
  show "matchesPattern ctor input config =
           (case map_throwing (parsePattern ctor) (forbiddenPatterns config) of
              Inl e \<Rightarrow> Inl e
            | Inr regexPatterns \<Rightarrow> Inr False)"
    using assms by (rule matchesPattern_no_logic)
next
  let ?cs = "before @ config # after"
  let ?site = "classify ?cs nd"
  assume run: "CallExpression ctor ?cs nd = Inr rs" and r: "forbiddenConsole n d \<in> set rs"
  from r have "rs \<noteq> []" by auto
  with run CallExpression_cases [of ctor ?cs nd]
  have "resolve ctor ?site 0 ?cs = Inr rs" by auto
  from resolve_report_matched [OF this r]
  have m: "matchesPattern ctor (literalText ?site) (?cs ! configurationIndex d) = Inr True"
    by auto
  show "configurationIndex d \<noteq> length before"
  proof
    assume "configurationIndex d = length before"
    with m have "matchesPattern ctor (literalText ?site) config = Inr True" by simp
    with matchesPattern_no_logic [OF assms, of ctor "literalText ?site"]
    show False by (simp split: sum.splits)
  qed
qed

text \<open>
  The configuration of the first example of the README, one pattern and no logic: its
  pattern compiles, and the result is false on a text that the pattern matches.
\<close>

theorem C3_no_logic_never_matches_witness:
  "logic (console_configuration [''/debug/i''] None) = None \<and>
   test_on (parsePattern ecma262_RegExp ''/debug/i'') ''DEBUG some text'' = Inr True \<and>
   matchesPattern ecma262_RegExp ''DEBUG some text'' (console_configuration [''/debug/i''] None)
     = Inr False"
proof -
  let ?c = "console_configuration [''/debug/i''] None"
  have h: "logic ?c = None" by (simp add: console_configuration_def)
  have "matchesPattern ecma262_RegExp ''DEBUG some text'' ?c =
        (case map_throwing (parsePattern ecma262_RegExp) (forbiddenPatterns ?c) of
           Inl e \<Rightarrow> Inl e
         | Inr regexPatterns \<Rightarrow> Inr False)"
    using C3_no_logic_never_matches [OF h] by blast
  also have "\<dots> = Inr False" by code_simp
  finally have m: "matchesPattern ecma262_RegExp ''DEBUG some text'' ?c = Inr False" .
  have "test_on (parsePattern ecma262_RegExp ''/debug/i'') ''DEBUG some text'' = Inr True"
    by code_simp
  with h m show ?thesis by simp
qed

text \<open>
  Claim C3 as stated fails where a pattern does not compile: the plain pattern \<^verbatim>\<open>(\<close> becomes
  the source \<^verbatim>\<open>\b(\b\<close> with an unterminated group, and \<^verbatim>\<open>matchesPattern\<close> raises instead of
  returning false. So it does for the pattern \<^verbatim>\<open>/(/\<close> of the regular expression shape, whose
  body is the same unterminated group.
\<close>

theorem C3_counterexample:
  "logic (console_configuration [''(''] None) = None \<and>
   matchesPattern ecma262_RegExp ''debug'' (console_configuration [''(''] None) = Inl SyntaxError \<and>
   logic (console_configuration [''/(/''] None) = None \<and>
   matchesPattern ecma262_RegExp ''debug'' (console_configuration [''/(/''] None) = Inl SyntaxError"
  by code_simp

section \<open>No patterns and the logic AND\<close>

text \<open>
  Claim C10, as amended. For a configuration with no patterns and the logic \<open>AND\<close>,
  \<^verbatim>\<open>matchesPattern\<close> returns true on every input and the validator reports nothing. At a
  call site to which the configuration applies and whose level it does not exclude, the
  visit ends, whatever the text, in one of two ways: it reports exactly one diagnostic, of
  this configuration or of one before it; or it raises the exception with which the
  patterns of a configuration before it fail to compile, that configuration being the
  first one that is not passed over, applying to the call site and not excluding its
  level. So the diagnostic is reported whenever the patterns of every configuration
  before it that applies and does not exclude the level compile, and it is the
  configuration's own when all configurations before it are passed over.
\<close>

theorem C10_no_patterns_AND:
  assumes "forbiddenPatterns config = []" and "logic config = Some AND"
    and "site = classify (before @ config # after) nd"
  shows "matchesPattern ctor input config = Inr True \<and>
         validateConfig config index = [] \<and>
         (\<not> levelExcluded site config \<and>
          (appliesToConsole site config \<or> appliesToCustomLogger site config) \<longrightarrow>
            ((\<exists>d. CallExpression ctor (before @ config # after) nd = Inr [forbiddenConsole nd d] \<and>
                  configurationIndex d \<le> length before) \<or>
             (\<exists>e k. CallExpression ctor (before @ config # after) nd = Inl e \<and>
                  k < length before \<and>
                  list_all (\<lambda>c. levelExcluded site c \<or>
                         \<not> (appliesToConsole site c \<or> appliesToCustomLogger site c) \<or>
                         matchesPattern ctor (literalText site) c = Inr False) (take k before) \<and>
                  \<not> levelExcluded site (before ! k) \<and>
                  (appliesToConsole site (before ! k) \<or> appliesToCustomLogger site (before ! k)) \<and>
                  map_throwing (parsePattern ctor) (forbiddenPatterns (before ! k)) = Inl e)) \<and>
            (list_all (\<lambda>c. levelExcluded site c \<or>
                         \<not> (appliesToConsole site c \<or> appliesToCustomLogger site c) \<or>
                         (\<exists>regexPatterns. map_throwing (parsePattern ctor) (forbiddenPatterns c) =
                            Inr regexPatterns)) before \<longrightarrow>
             (\<exists>d. CallExpression ctor (before @ config # after) nd = Inr [forbiddenConsole nd d] \<and>
                  configurationIndex d \<le> length before)) \<and>
            (list_all (\<lambda>c. levelExcluded site c \<or>
                         \<not> (appliesToConsole site c \<or> appliesToCustomLogger site c) \<or>
                         matchesPattern ctor (literalText site) c = Inr False) before \<longrightarrow>
             (\<exists>d. CallExpression ctor (before @ config # after) nd = Inr [forbiddenConsole nd d] \<and>
                  configurationIndex d = length before)))"
proof -
  let ?cs = "before @ config # after"
  let ?passed = "\<lambda>c. levelExcluded site c \<or>
                      \<not> (appliesToConsole site c \<or> appliesToCustomLogger site c) \<or>
                      matchesPattern ctor (literalText site) c = Inr False"
  let ?report = "\<exists>d. CallExpression ctor ?cs nd = Inr [forbiddenConsole nd d] \<and>
                     configurationIndex d \<le> length before"
  let ?raise = "\<exists>e k. CallExpression ctor ?cs nd = Inl e \<and> k < length before \<and>
                  list_all ?passed (take k before) \<and>
                  \<not> levelExcluded site (before ! k) \<and>
                  (appliesToConsole site (before ! k) \<or> appliesToCustomLogger site (before ! k)) \<and>
                  map_throwing (parsePattern ctor) (forbiddenPatterns (before ! k)) = Inl e"
  have always: "\<And>text. matchesPattern ctor text config = Inr True"
    using assms(1,2) by (simp add: matchesPattern_def combine_def)
  have valid: "validateConfig config index = []"
    using assms(1,2) by (simp add: validateConfig_def)
  have visit: "(?report \<or> ?raise) \<and>
      (list_all (\<lambda>c. levelExcluded site c \<or>
                     \<not> (appliesToConsole site c \<or> appliesToCustomLogger site c) \<or>
                     (\<exists>regexPatterns. map_throwing (parsePattern ctor) (forbiddenPatterns c) =
                        Inr regexPatterns)) before \<longrightarrow> ?report) \<and>
      (list_all ?passed before \<longrightarrow>
         (\<exists>d. CallExpression ctor ?cs nd = Inr [forbiddenConsole nd d] \<and>
              configurationIndex d = length before))"
    if ne: "\<not> levelExcluded site config"
      and ap: "appliesToConsole site config \<or> appliesToCustomLogger site config"
  proof -
    have eq: "CallExpression ctor ?cs nd = resolve ctor site 0 ?cs"
      using CallExpression_resolve [OF assms(3) ap] .
    have notpassed: "\<not> ?passed config"
      using ne ap always [of "literalText site"] by simp
    have cases: "?report \<or> ?raise"
    proof (cases "\<exists>e. CallExpression ctor ?cs nd = Inl e")
      case False
      with resolve_reaches [OF ne ap always, of 0 before after] eq assms(3)
      have ?report by (auto simp: callNode_classify)
      then show ?thesis ..
    next
      case True
      then obtain e where e: "CallExpression ctor ?cs nd = Inl e" ..
      with eq have "resolve ctor site 0 ?cs = Inl e" by simp
      from resolve_raises [OF this] obtain k where
        k: "k < length ?cs" "list_all ?passed (take k ?cs)" "\<not> levelExcluded site (?cs ! k)"
          "appliesToConsole site (?cs ! k) \<or> appliesToCustomLogger site (?cs ! k)"
          "matchesPattern ctor (literalText site) (?cs ! k) = Inl e"
        by blast
      have "k < length before"
      proof (rule ccontr)
        assume "\<not> k < length before"
        then consider "k = length before" | "length before < k" by linarith
        then show False
        proof cases
          case 1
          with k(5) always [of "literalText site"] show False by simp
        next
          case 2
          then have "config \<in> set (take k ?cs)"
            by (simp add: take_Cons')
          with k(2) have "?passed config" by (simp add: list_all_iff)
          with notpassed show False ..
        qed
      qed
      with k have "list_all ?passed (take k before)" "\<not> levelExcluded site (before ! k)"
        "appliesToConsole site (before ! k) \<or> appliesToCustomLogger site (before ! k)"
        "matchesPattern ctor (literalText site) (before ! k) = Inl e"
        by (simp_all add: nth_append)
      with e \<open>k < length before\<close> have ?raise
        by (auto simp: matchesPattern_Inl)
      then show ?thesis ..
    qed
    have compile: ?report
      if c: "list_all (\<lambda>c. levelExcluded site c \<or>
                     \<not> (appliesToConsole site c \<or> appliesToCustomLogger site c) \<or>
                     (\<exists>regexPatterns. map_throwing (parsePattern ctor) (forbiddenPatterns c) =
                        Inr regexPatterns)) before"
    proof (rule ccontr)
      assume "\<not> ?report"
      with cases have ?raise by blast
      then obtain e k where k: "k < length before" "\<not> levelExcluded site (before ! k)"
        "appliesToConsole site (before ! k) \<or> appliesToCustomLogger site (before ! k)"
        "map_throwing (parsePattern ctor) (forbiddenPatterns (before ! k)) = Inl e"
        by blast
      from c k(1) have "levelExcluded site (before ! k) \<or>
          \<not> (appliesToConsole site (before ! k) \<or> appliesToCustomLogger site (before ! k)) \<or>
          (\<exists>regexPatterns. map_throwing (parsePattern ctor) (forbiddenPatterns (before ! k)) =
             Inr regexPatterns)"
        by (simp add: list_all_length)
      with k show False by auto
    qed
    have own: "\<exists>d. CallExpression ctor ?cs nd = Inr [forbiddenConsole nd d] \<and>
                  configurationIndex d = length before"
      if "list_all ?passed before"
      using that ne ap always [of "literalText site"]
        CallExpression_first_match [OF assms(3), of ctor]
      by blast
    from cases compile own show ?thesis by blast
  qed
  from always [of input] valid visit show ?thesis by blast
qed

text \<open>
  \<^verbatim>\<open>console.log("anything")\<close> with the configuration at index 2, behind a configuration
  for a custom logger and one whose patterns do not match, and in front of one that
  matches: the report has index 2. With a matching configuration in front, whose
  patterns compile, a diagnostic is reported with an index up to 1.
\<close>

theorem C10_no_patterns_AND_witness:
  "validateConfig (console_configuration [] (Some AND)) 2 = [] \<and>
   (\<exists>d. CallExpression ecma262_RegExp
           [logger_configuration [''debug'', ''trace''] (Some OR) [''cheese''],
            console_configuration [''secret'', ''token''] (Some OR),
            console_configuration [] (Some AND),
            console_configuration [''anything'', ''else''] (Some OR)]
           (method_call ''console'' ''log'' [Literal (Str ''anything'')])
         = Inr [forbiddenConsole (method_call ''console'' ''log'' [Literal (Str ''anything'')]) d] \<and>
        configurationIndex d = 2) \<and>
   (\<exists>d. CallExpression ecma262_RegExp
           [console_configuration [''anything'', ''else''] (Some OR),
            console_configuration [] (Some AND)]
           (method_call ''console'' ''log'' [Literal (Str ''anything'')])
         = Inr [forbiddenConsole (method_call ''console'' ''log'' [Literal (Str ''anything'')]) d] \<and>
        configurationIndex d \<le> 1)"
proof -
  let ?c = "console_configuration [] (Some AND)"
  let ?l = "logger_configuration [''debug'', ''trace''] (Some OR) [''cheese'']"
  let ?s = "console_configuration [''secret'', ''token''] (Some OR)"
  let ?a = "console_configuration [''anything'', ''else''] (Some OR)"
  let ?nd = "method_call ''console'' ''log'' [Literal (Str ''anything'')]"
  have p: "forbiddenPatterns ?c = []" and l: "logic ?c = Some AND"
    by (simp_all add: console_configuration_def)
  \<comment> \<open>two configurations passed over, one matching configuration behind\<close>
  let ?site = "classify ([?l, ?s] @ ?c # [?a]) ?nd"
  have h: "\<not> levelExcluded ?site ?c \<and> (appliesToConsole ?site ?c \<or> appliesToCustomLogger ?site ?c)"
    by code_simp
  have b: "list_all (\<lambda>c. levelExcluded ?site c \<or>
                         \<not> (appliesToConsole ?site c \<or> appliesToCustomLogger ?site c) \<or>
                         matchesPattern ecma262_RegExp (literalText ?site) c = Inr False) [?l, ?s]"
    by code_simp
  from C10_no_patterns_AND [OF p l refl, where ctor = ecma262_RegExp and index = 2
      and before = "[?l, ?s]" and after = "[?a]" and nd = ?nd] h b
  have first: "validateConfig ?c 2 = [] \<and>
        (\<exists>d. CallExpression ecma262_RegExp ([?l, ?s] @ ?c # [?a]) ?nd = Inr [forbiddenConsole ?nd d] \<and>
             configurationIndex d = length [?l, ?s])"
    by blast
  \<comment> \<open>a matching configuration in front, whose patterns compile\<close>
  let ?site' = "classify ([?a] @ ?c # []) ?nd"
  have h': "\<not> levelExcluded ?site' ?c \<and> (appliesToConsole ?site' ?c \<or> appliesToCustomLogger ?site' ?c)"
    by code_simp
  have "\<not> isl (map_throwing (parsePattern ecma262_RegExp) (forbiddenPatterns ?a))"
    by code_simp
  then have "\<exists>regexPatterns. map_throwing (parsePattern ecma262_RegExp) (forbiddenPatterns ?a) =
               Inr regexPatterns"
    by (cases "map_throwing (parsePattern ecma262_RegExp) (forbiddenPatterns ?a)") simp_all
  then have b': "list_all (\<lambda>c. levelExcluded ?site' c \<or>
                         \<not> (appliesToConsole ?site' c \<or> appliesToCustomLogger ?site' c) \<or>
                         (\<exists>regexPatterns. map_throwing (parsePattern ecma262_RegExp) (forbiddenPatterns c) =
                            Inr regexPatterns)) [?a]"
    by simp
  from C10_no_patterns_AND [OF p l refl, where ctor = ecma262_RegExp and index = 2
      and before = "[?a]" and after = "[]" and nd = ?nd] h' b'
  have second: "\<exists>d. CallExpression ecma262_RegExp ([?a] @ ?c # []) ?nd = Inr [forbiddenConsole ?nd d] \<and>
             configurationIndex d \<le> length [?a]"
    by blast
  from first second show ?thesis by (simp add: numeral_2_eq_2)
qed

text \<open>
  Claim C10 as stated fails behind a configuration whose pattern does not compile, be it
  the plain pattern \<^verbatim>\<open>(\<close> or the pattern \<^verbatim>\<open>/(/\<close> of the regular expression shape: the loop
  raises at index 0 and never reaches the configuration at index 1, which applies to the
  call site and does not exclude its level.
\<close>

theorem C10_counterexample:
  "forbiddenPatterns (console_configuration [] (Some AND)) = [] \<and>
   logic (console_configuration [] (Some AND)) = Some AND \<and>
   \<not> levelExcluded
       (classify [console_configuration [''('', ''debug''] (Some OR), console_configuration [] (Some AND)]
          (method_call ''console'' ''log'' [Literal (Str ''anything'')]))
       (console_configuration [] (Some AND)) \<and>
   appliesToConsole
       (classify [console_configuration [''('', ''debug''] (Some OR), console_configuration [] (Some AND)]
          (method_call ''console'' ''log'' [Literal (Str ''anything'')]))
       (console_configuration [] (Some AND)) \<and>
   CallExpression ecma262_RegExp
       [console_configuration [''('', ''debug''] (Some OR), console_configuration [] (Some AND)]
       (method_call ''console'' ''log'' [Literal (Str ''anything'')])
     = Inl SyntaxError \<and>
   CallExpression ecma262_RegExp
       [console_configuration [''/(/'', ''debug''] (Some OR), console_configuration [] (Some AND)]
       (method_call ''console'' ''log'' [Literal (Str ''anything'')])
     = Inl SyntaxError"
  by code_simp

section \<open>Custom loggers\<close>

text \<open>
  At a call site of the handler, the look-up in \<open>appliesToCustomLogger\<close> repeats the test
  that made the statement a custom logger statement: every configuration that declares
  \<^verbatim>\<open>customLoggers\<close> applies to every custom logger statement.
\<close>

lemma appliesToCustomLogger_classify:
  "appliesToCustomLogger (classify configurations nd) config =
   (isCustomLoggerStatement (classify configurations nd) \<and> customLoggers config \<noteq> None)"
  by (auto simp: appliesToCustomLogger_def classify_def Let_def)

text \<open>
  Claim C1 at a failing input. Two configurations declare the custom loggers \<^verbatim>\<open>foo\<close> and
  \<^verbatim>\<open>cheese\<close>. The statement \<^verbatim>\<open>cheese.log("debug")\<close> is reported for the configuration at
  index 0, whose own list holds only \<^verbatim>\<open>foo\<close>: the handler looks the object name up in the
  names of all configurations, not in the list of the configuration at hand.
\<close>

theorem C1_other_logger_reported:
  "customLoggers (logger_configuration [''debug'', ''trace''] (Some OR) [''foo'']) = Some [''foo''] \<and>
   CallExpression ecma262_RegExp
       [logger_configuration [''debug'', ''trace''] (Some OR) [''foo''],
        logger_configuration [''secret'', ''token''] (Some OR) [''cheese'']]
       (method_call ''cheese'' ''log'' [Literal (Str ''debug'')])
     = Inr [forbiddenConsole (method_call ''cheese'' ''log'' [Literal (Str ''debug'')])
              \<lparr> loggerName = ''foo'', logMethod = Some ''log'', configurationIndex = 0,
                explanation = [CHR 0x27] @ ''debug'' @ [CHR 0x27] @ '' OR '' @
                              [CHR 0x27] @ ''trace'' @ [CHR 0x27] \<rparr>]"
  by code_simp

section \<open>One pattern and no logic\<close>

text \<open>
  Claim C2 at a failing input, the first example of the README. The configuration
  \<^verbatim>\<open>{ forbiddenPatterns: ["/debug/i"] }\<close> passes the validator, and its pattern matches the
  text of \<^verbatim>\<open>console.log("debug", "some text...")\<close>. Each of the three logic branches is
  true on the one true result; still \<^verbatim>\<open>matchesPattern\<close> returns false, through the last
  \<^verbatim>\<open>return\<close>, and the visit reports nothing.
\<close>

theorem C2_single_pattern_falls_through:
  "combine (Some OR) [True] \<and> combine (Some AND) [True] \<and> combine (Some XOR) [True] \<and>
   \<not> combine None [True] \<and>
   validateConfig (console_configuration [''/debug/i''] None) 0 = [] \<and>
   messageArguments [Literal (Str ''debug''), Literal (Str ''some text...'')] = ''debug some text...'' \<and>
   test_on (parsePattern ecma262_RegExp ''/debug/i'') ''debug some text...'' = Inr True \<and>
   matchesPattern ecma262_RegExp ''debug some text...'' (console_configuration [''/debug/i''] None)
     = Inr False \<and>
   CallExpression ecma262_RegExp [console_configuration [''/debug/i''] None]
       (method_call ''console'' ''log'' [Literal (Str ''debug''), Literal (Str ''some text...'')])
     = Inr []"
  by code_simp

section \<open>Plain patterns\<close>

lemma parse_plain_characters:
  "list_all (\<lambda>c. \<not> syntax_character c) w \<Longrightarrow>
   parse (alts, terms) stack (w @ rest) =
   parse (alts, rev (map (\<lambda>c. (Character c, Atom)) w) @ terms) stack rest"
proof (induction w arbitrary: terms)
  case Nil
  then show ?case by simp
next
  case (Cons c w)
  from Cons.prems have c: "\<not> syntax_character c" and w: "list_all (\<lambda>c. \<not> syntax_character c) w"
    by simp_all
  from c have "parse (alts, terms) stack (c # (w @ rest)) =
               parse (alts, (Character c, Atom) # terms) stack (w @ rest)"
    by (simp add: syntax_character_def push_term_def)
  with Cons.IH [OF w, of "(Character c, Atom) # terms"] show ?case by simp
qed

lemma sequence_of_word:
  "sequence_of ((Assertion WordBoundary, Closed) # rev (map (\<lambda>c. (Character c, Atom)) w) @
                [(Assertion WordBoundary, Closed)]) = word_regex w"
proof -
  have "foldl (\<lambda>acc t. Sequence (fst t) acc) a (rev (map (\<lambda>c. (Character c, Atom)) w)) =
        foldr (\<lambda>c r. Sequence (Character c) r) w a" for a
    by (induction w arbitrary: a) simp_all
  then show ?thesis by (simp add: sequence_of_def word_regex_def)
qed

lemma parse_word_source:
  assumes "list_all (\<lambda>c. \<not> syntax_character c) w"
  shows "parse ([], []) [] ([CHR 0x5C, CHR ''b''] @ w @ [CHR 0x5C, CHR ''b'']) = Inr (word_regex w)"
proof -
  have "parse ([], []) [] ([CHR 0x5C, CHR ''b''] @ w @ [CHR 0x5C, CHR ''b'']) =
        parse ([], [(Assertion WordBoundary, Closed)]) [] (w @ [CHR 0x5C, CHR ''b''])"
    by (simp add: escape_def push_term_def)
  also have "\<dots> = parse ([], rev (map (\<lambda>c. (Character c, Atom)) w) @ [(Assertion WordBoundary, Closed)])
                      [] [CHR 0x5C, CHR ''b'']"
    using assms by (rule parse_plain_characters)
  also have "\<dots> = Inr (sequence_of ((Assertion WordBoundary, Closed) #
                      rev (map (\<lambda>c. (Character c, Atom)) w) @ [(Assertion WordBoundary, Closed)]))"
    by (simp add: escape_def push_term_def disjunction_of_def)
  finally show ?thesis by (simp add: sequence_of_word)
qed
lemma ends_characters:
  "ends f (foldr (\<lambda>c r. Sequence (Character c) r) w tail) (prev, rest) =
   (if length w \<le> length rest \<and>
       map (canonicalize f) (take (length w) rest) = map (canonicalize f) w
    then ends f tail (if take (length w) rest = [] then prev else Some (last (take (length w) rest)),
                      drop (length w) rest)
    else [])"
proof (induction w arbitrary: prev rest)
  case Nil
  then show ?case by simp
next
  case (Cons c w)
  show ?case
  proof (cases rest)
    case Nil
    then show ?thesis by (simp add: consume_def)
  next
    case (Cons x xs)
    show ?thesis
    proof (cases "canonicalize f x = canonicalize f c")
      case False
      with Cons show ?thesis by (simp add: consume_def)
    next
      case True
      with Cons have "ends f (foldr (\<lambda>c r. Sequence (Character c) r) (c # w) tail) (prev, rest) =
                      ends f (foldr (\<lambda>c r. Sequence (Character c) r) w tail) (Some x, xs)"
        by (simp add: consume_def)
      also note Cons.IH [of "Some x" xs]
      finally show ?thesis using True Cons by simp
    qed
  qed
qed

lemma ends_word_regex:
  "(ends ignoreCase_only (word_regex w) p \<noteq> []) = spec_word_here w p"
proof -
  obtain prev rest where p: "p = (prev, rest)" by (cases p)
  let ?after = "(if take (length w) rest = [] then prev else Some (last (take (length w) rest)),
                 drop (length w) rest)"
  have "ends ignoreCase_only (word_regex w) p =
        (if word_before p \<noteq> word_after p \<and> length w \<le> length rest \<and>
            map (canonicalize ignoreCase_only) (take (length w) rest) =
            map (canonicalize ignoreCase_only) w \<and>
            word_before ?after \<noteq> word_after ?after
         then [?after] else [])"
    by (simp add: word_regex_def p ends_characters assertion_holds_def)
  then show ?thesis
    by (auto simp: spec_word_here_def spec_same_word_def Let_def p ignoreCase_only_def)
qed

lemma search_word_regex:
  "search ignoreCase_only (word_regex w) prev rest = spec_word_from w prev rest"
  by (induction rest arbitrary: prev) (simp_all add: ends_word_regex)

text \<open>
  For a plain pattern without syntax characters the matcher is the whole-word match of
  the specification: the pattern occurs in the text between two word boundaries, letters
  compared without regard to case.
\<close>

lemma plain_pattern_whole_word:
  assumes "getMatch pattern = None" and "list_all (\<lambda>c. \<not> syntax_character c) pattern"
  shows "test_on (parsePattern ecma262_RegExp pattern) input = Inr (spec_whole_word pattern input)"
proof -
  have "parse_flags ''i'' = Inr ignoreCase_only"
    by (simp add: parse_flags_def ignoreCase_only_def flag_character_def)
  with assms(1) parse_word_source [OF assms(2)]
  have "parsePattern ecma262_RegExp pattern = Inr (regexp_test ignoreCase_only (word_regex pattern))"
    by (simp add: parsePattern_def ecma262_RegExp_def)
  moreover have "\<not> sticky ignoreCase_only" by (simp add: ignoreCase_only_def)
  ultimately show ?thesis
    by (simp add: test_on_def regexp_test_def search_word_regex spec_whole_word_def)
qed

text \<open>
  Claim C6 at failing inputs. The plain pattern \<^verbatim>\<open>a.c\<close> is compiled from the source
  \<^verbatim>\<open>\ba.c\b\<close>, in which the dot stands for any character: the matcher tests true on
  \<^verbatim>\<open>abc\<close>, where the pattern does not occur. The plain pattern \<^verbatim>\<open>c++\<close> does not compile at
  all. The examples of the claim, without such characters, come out as it says.
\<close>

theorem C6_plain_pattern_not_escaped:
  "getMatch ''a.c'' = None \<and>
   test_on (parsePattern ecma262_RegExp ''a.c'') ''abc'' = Inr True \<and>
   \<not> spec_whole_word ''a.c'' ''abc'' \<and>
   getMatch ''c++'' = None \<and>
   test_on (parsePattern ecma262_RegExp ''c++'') ''use c++ here'' = Inl SyntaxError \<and>
   test_on (parsePattern ecma262_RegExp ''debug'') ''DEBUG some text'' = Inr True \<and>
   spec_whole_word ''debug'' ''DEBUG some text'' \<and>
   test_on (parsePattern ecma262_RegExp ''debug'') ''debugging'' = Inr False \<and>
   \<not> spec_whole_word ''debug'' ''debugging''"
  by code_simp

section \<open>Patterns of the regular expression shape\<close>

lemma filter_rev_upt_none: "n \<le> m \<Longrightarrow> filter (\<lambda>k. k = m) (rev [0..<n]) = []"
  by (simp add: filter_empty_conv)

lemma filter_rev_upt_one: "m < n \<Longrightarrow> filter (\<lambda>k. k = m) (rev [0..<n]) = [m]"
proof (induction n)
  case 0
  then show ?case by simp
next
  case (Suc n)
  show ?case
  proof (cases "m = n")
    case True
    then show ?thesis by (simp add: filter_rev_upt_none)
  next
    case False
    with Suc.prems have "m < n" by simp
    with Suc.IH False show ?thesis by simp
  qed
qed

lemma slash_no_flag: "\<not> flag_character CHR ''/''"
  by code_simp

text \<open>
  In a string \<open>body @ ''/'' @ flags\<close> whose flags are flag characters and whose body has
  no line terminator, the length of the body is the only place to split.
\<close>

lemma body_length_unique:
  assumes fl: "list_all flag_character flags"
    and bd: "list_all (\<lambda>c. \<not> LineTerminator c) body"
  shows "body_length (body @ CHR ''/'' # flags) k = (k = length body)"
proof
  assume k: "body_length (body @ CHR ''/'' # flags) k"
  let ?rest = "body @ CHR ''/'' # flags"
  from k have slash: "take 1 (drop k ?rest) = ''/''"
    and tail: "list_all flag_character (drop (Suc k) ?rest)"
    by (simp_all add: body_length_def)
  show "k = length body"
  proof (rule ccontr)
    assume "k \<noteq> length body"
    then consider "k < length body" | "length body < k" by linarith
    then show False
    proof cases
      case 1
      then have "CHR ''/'' \<in> set (drop (Suc k) ?rest)" by simp
      with tail have "flag_character CHR ''/''" by (simp add: list_all_iff)
      with slash_no_flag show False by simp
    next
      case 2
      then obtain j where j: "k = Suc (length body + j)" using less_iff_Suc_add by auto
      with slash have "take 1 (drop j flags) = ''/''" by simp
      then have "CHR ''/'' \<in> set (drop j flags)" by (cases "drop j flags") auto
      then have "CHR ''/'' \<in> set flags" by (rule in_set_dropD)
      with fl have "flag_character CHR ''/''" by (simp add: list_all_iff)
      with slash_no_flag show False by simp
    qed
  qed
next
  assume "k = length body"
  with fl bd show "body_length (body @ CHR ''/'' # flags) k" by (simp add: body_length_def)
qed

lemma getMatch_shape:
  assumes "list_all flag_character flags" and "list_all (\<lambda>c. \<not> LineTerminator c) body"
  shows "getMatch (CHR ''/'' # body @ CHR ''/'' # flags) = Some (body, flags)"
proof -
  let ?rest = "body @ CHR ''/'' # flags"
  have "filter (body_length ?rest) (rev [0..<length ?rest]) =
        filter (\<lambda>k. k = length body) (rev [0..<length ?rest])"
    using body_length_unique [OF assms] by (intro filter_cong) simp_all
  also have "\<dots> = [length body]" by (rule filter_rev_upt_one) simp
  finally show ?thesis by (simp add: getMatch_def)
qed

lemma getMatch_Some:
  assumes "getMatch pattern = Some (body, flags)"
  shows "pattern = CHR ''/'' # body @ CHR ''/'' # flags \<and>
         list_all flag_character flags \<and> list_all (\<lambda>c. \<not> LineTerminator c) body"
proof -
  from assms obtain rest where p: "pattern = CHR ''/'' # rest"
    by (cases pattern) (auto simp: getMatch_def split: if_splits)
  with assms obtain k ks where f: "filter (body_length rest) (rev [0..<length rest]) = k # ks"
    and b: "body = take k rest" and fl: "flags = drop (Suc k) rest"
    by (auto simp: getMatch_def split: list.splits)
  from f have "k \<in> set (filter (body_length rest) (rev [0..<length rest]))" by simp
  then have k: "body_length rest k" by simp
  then have "take 1 (drop k rest) = ''/''" by (simp add: body_length_def)
  then have "drop k rest = CHR ''/'' # drop (Suc k) rest"
    by (cases "drop k rest") (auto simp: drop_Suc drop_tl)
  then have "rest = take k rest @ CHR ''/'' # drop (Suc k) rest"
    by (metis append_take_drop_id)
  with p b fl k show ?thesis by (simp add: body_length_def)
qed

text \<open>
  Claim C7, as amended. A pattern that consists of a slash, a body without line
  terminator, a slash, and flags from \<^verbatim>\<open>gimuydsv\<close> (none, or any number in any order) is
  handed to the constructor as exactly that body and those flags, and the outcome of the
  compiler is the outcome of the constructor: the regular expression that it builds from
  them when it accepts them, and its exception when it rejects them, as it does for the
  flags of \<^verbatim>\<open>/a/gg\<close> and \<^verbatim>\<open>/a/uv\<close> and for the body of \<^verbatim>\<open>/(/\<close>. In particular \<^verbatim>\<open>/debug/i\<close>
  matches \<^verbatim>\<open>DEBUG\<close> and does not match \<^verbatim>\<open>no match here\<close>.
\<close>

theorem C7_regular_expression_shape:
  "(list_all flag_character flags \<and> list_all (\<lambda>c. \<not> LineTerminator c) body \<longrightarrow>
      parsePattern ctor (CHR ''/'' # body @ CHR ''/'' # flags) = ctor body flags \<and>
      (ctor body flags = Inr regex \<longrightarrow>
         parsePattern ctor (CHR ''/'' # body @ CHR ''/'' # flags) = Inr regex) \<and>
      (ctor body flags = Inl e \<longrightarrow>
         parsePattern ctor (CHR ''/'' # body @ CHR ''/'' # flags) = Inl e)) \<and>
   test_on (parsePattern ecma262_RegExp ''/debug/i'') ''DEBUG'' = Inr True \<and>
   test_on (parsePattern ecma262_RegExp ''/debug/i'') ''no match here'' = Inr False \<and>
   test_on (parsePattern ecma262_RegExp ''/a/gg'') ''a'' = Inl SyntaxError \<and>
   test_on (parsePattern ecma262_RegExp ''/a/uv'') ''a'' = Inl SyntaxError \<and>
   test_on (parsePattern ecma262_RegExp ''/(/'') ''a'' = Inl SyntaxError"
proof -
  have "list_all flag_character flags \<and> list_all (\<lambda>c. \<not> LineTerminator c) body \<longrightarrow>
      parsePattern ctor (CHR ''/'' # body @ CHR ''/'' # flags) = ctor body flags \<and>
      (ctor body flags = Inr regex \<longrightarrow>
         parsePattern ctor (CHR ''/'' # body @ CHR ''/'' # flags) = Inr regex) \<and>
      (ctor body flags = Inl e \<longrightarrow>
         parsePattern ctor (CHR ''/'' # body @ CHR ''/'' # flags) = Inl e)"
    by (simp add: parsePattern_def getMatch_shape)
  moreover have "test_on (parsePattern ecma262_RegExp ''/debug/i'') ''DEBUG'' = Inr True"
    by code_simp
  moreover have "test_on (parsePattern ecma262_RegExp ''/debug/i'') ''no match here'' = Inr False"
    by code_simp
  moreover have "test_on (parsePattern ecma262_RegExp ''/a/gg'') ''a'' = Inl SyntaxError"
    by code_simp
  moreover have "test_on (parsePattern ecma262_RegExp ''/a/uv'') ''a'' = Inl SyntaxError"
    by code_simp
  moreover have "test_on (parsePattern ecma262_RegExp ''/(/'') ''a'' = Inl SyntaxError"
    by code_simp
  ultimately show ?thesis by simp
qed

text \<open>
  The pattern \<^verbatim>\<open>/a/b/gi\<close>: the body is \<^verbatim>\<open>a/b\<close>, up to the last slash, and the flags are
  \<^verbatim>\<open>gi\<close>; the constructor accepts them. The pattern \<^verbatim>\<open>/a/gg\<close>: the constructor rejects the
  flags \<^verbatim>\<open>gg\<close>, and the compiler raises its exception.
\<close>

theorem C7_regular_expression_shape_witness:
  "list_all flag_character ''gi'' \<and> list_all (\<lambda>c. \<not> LineTerminator c) ''a/b'' \<and>
   parsePattern ecma262_RegExp ''/a/b/gi'' = ecma262_RegExp ''a/b'' ''gi'' \<and>
   test_on (parsePattern ecma262_RegExp ''/a/b/gi'') ''x A/B y'' = Inr True \<and>
   list_all flag_character ''gg'' \<and> list_all (\<lambda>c. \<not> LineTerminator c) ''a'' \<and>
   ecma262_RegExp ''a'' ''gg'' = Inl SyntaxError \<and>
   parsePattern ecma262_RegExp ''/a/gg'' = Inl SyntaxError"
proof -
  have h: "list_all flag_character ''gi'' \<and> list_all (\<lambda>c. \<not> LineTerminator c) ''a/b''"
    by code_simp
  with C7_regular_expression_shape [where flags = "''gi''" and body = "''a/b''"
      and ctor = ecma262_RegExp]
  have "parsePattern ecma262_RegExp (CHR ''/'' # ''a/b'' @ CHR ''/'' # ''gi'') = ecma262_RegExp ''a/b'' ''gi''"
    by blast
  then have e: "parsePattern ecma262_RegExp ''/a/b/gi'' = ecma262_RegExp ''a/b'' ''gi''" by simp
  have t: "test_on (parsePattern ecma262_RegExp ''/a/b/gi'') ''x A/B y'' = Inr True" by code_simp
  have h': "list_all flag_character ''gg'' \<and> list_all (\<lambda>c. \<not> LineTerminator c) ''a''"
    by code_simp
  have r: "ecma262_RegExp ''a'' ''gg'' = Inl SyntaxError"
    by (simp add: ecma262_RegExp_def parse_flags_def)
  from h' r C7_regular_expression_shape [where flags = "''gg''" and body = "''a''"
      and ctor = ecma262_RegExp and e = SyntaxError]
  have "parsePattern ecma262_RegExp (CHR ''/'' # ''a'' @ CHR ''/'' # ''gg'') = Inl SyntaxError"
    by blast
  then have e': "parsePattern ecma262_RegExp ''/a/gg'' = Inl SyntaxError" by simp
  from h e t h' r e' show ?thesis by simp
qed

text \<open>
  Claim C7 as stated fails in two ways. A body with a line terminator, which \<^verbatim>\<open>.*\<close> does not
  cross: the pattern that consists of a slash, \<^verbatim>\<open>a\<close>, a line feed, \<^verbatim>\<open>b\<close> and a slash is not
  of the shape for \<^verbatim>\<open>getMatch\<close>; it is compiled as a plain word, slashes included, and does
  not match the text that the regular expression of its body matches. And flags that the
  constructor rejects: for \<^verbatim>\<open>/a/gg\<close> the compiler produces no regular expression but raises.
\<close>

theorem C7_counterexample:
  "list_all flag_character [] \<and>
   getMatch (CHR ''/'' # [CHR ''a'', CHR 0x0A, CHR ''b''] @ CHR ''/'' # []) = None \<and>
   test_on (parsePattern ecma262_RegExp (CHR ''/'' # [CHR ''a'', CHR 0x0A, CHR ''b''] @ CHR ''/'' # []))
       [CHR ''a'', CHR 0x0A, CHR ''b''] = Inr False \<and>
   test_on (ecma262_RegExp [CHR ''a'', CHR 0x0A, CHR ''b''] [])
       [CHR ''a'', CHR 0x0A, CHR ''b''] = Inr True \<and>
   list_all flag_character ''gg'' \<and>
   getMatch ''/a/gg'' = Some (''a'', ''gg'') \<and>
   test_on (parsePattern ecma262_RegExp ''/a/gg'') ''a'' = Inl SyntaxError"
  by code_simp

end
